theory Spec2Isabelle
  imports Main "HOL-Library.Word"
begin

section \<open>Scalar types and constants of the mapping module\<close>

text \<open>
  The mapping module folds contract events into store entities. \<open>BigInt\<close> values are
  unbounded integers (\<open>int\<close>); the schema's \<open>Int\<close> fields and the loop counters are
  32-bit machine integers (\<open>32 word\<close>, so \<open>+ 1\<close> wraps as it does in the source); an
  address is 20 bytes and a transaction hash 32 bytes. \<open>toHexString\<close> of a byte string
  and the decimal \<open>toString\<close> of a number are one-to-one, so comparing or keying by the
  rendered string is comparing or keying by the value rendered.
\<close>

type_synonym address = "160 word"
type_synonym bytes32 = "256 word"
type_synonym i32 = "32 word"

definition FEES_POOL_ADDRESS :: address where
  "FEES_POOL_ADDRESS = 0x00000000000fee50000000add2e5500000000000"

definition ADDRESS_ZERO :: address where
  "ADDRESS_ZERO = 0x0000000000000000000000000000000000000000"

definition MAX_TRANSACTIONS :: nat where
  "MAX_TRANSACTIONS = 10"

definition MAX_PRIZES :: int where
  "MAX_PRIZES = 7"

section \<open>Events\<close>

text \<open>
  Every event carries the block and transaction metadata the handlers read:
  \<open>event.block.timestamp\<close>, \<open>event.block.number\<close>, \<open>event.transaction.hash\<close> and
  \<open>event.logIndex\<close>. The constructor arguments after the metadata are the event's
  parameters in the order the handlers name them.
\<close>

record Meta =
  blockTimestamp :: int
  blockNumber :: int
  transactionHash :: bytes32
  logIndex :: int

datatype Event =
    LotteryWon Meta int address int            \<comment> \<open>day, winner, amount\<close>
  | AuctionWon Meta int address int int        \<comment> \<open>day, winner, stratAmount, monPaid\<close>
  | PrizeClaimed Meta address int              \<comment> \<open>winner, amount\<close>
  | BeneficiaryFunded Meta address address int \<comment> \<open>previousWinner, beneficiary, amount\<close>
  | AuctionStarted Meta int int                \<comment> \<open>day, stratAmount\<close>
  | BidPlaced Meta int address int             \<comment> \<open>day, bidder, amount\<close>
  | Minted Meta address int int int            \<comment> \<open>to, monAmount, stratAmount, fee\<close>
  | Redeemed Meta address int int int          \<comment> \<open>from, monAmount, stratAmount, fee\<close>
  | Transfer Meta address address int          \<comment> \<open>from, to, value\<close>

section \<open>Entities\<close>

text \<open>
  One record per entity class, with the fields the handlers assign. The \<open>id\<close> of a prize
  is \<open>day.toString() + "-lottery"\<close> (or \<open>"-auction"\<close>): within its own table it is
  represented by the integer rendered. The \<open>id\<close> of a transaction is the decimal
  rendering of a 32-bit counter, represented by that counter. Fields the handlers set
  only on a claim or an expiry are optional.
\<close>

record LotteryPrize =
  lp_id :: int
  lp_day :: int
  lp_winner :: address
  lp_amount :: int
  lp_claimed :: bool
  lp_expired :: bool
  lp_timestamp :: int
  lp_blockNumber :: int
  lp_txHash :: bytes32
  lp_user :: address
  lp_claimTimestamp :: "int option"
  lp_claimTxHash :: "bytes32 option"
  lp_expiryTimestamp :: "int option"
  lp_expiryTxHash :: "bytes32 option"
  lp_beneficiary :: "address option"

record AuctionPrize =
  ap_id :: int
  ap_day :: int
  ap_winner :: address
  ap_stratAmount :: int
  ap_monPaid :: int
  ap_claimed :: bool
  ap_expired :: bool
  ap_timestamp :: int
  ap_blockNumber :: int
  ap_txHash :: bytes32
  ap_bidCount :: i32
  ap_user :: address
  ap_claimTimestamp :: "int option"
  ap_claimTxHash :: "bytes32 option"
  ap_expiryTimestamp :: "int option"
  ap_expiryTxHash :: "bytes32 option"
  ap_beneficiary :: "address option"

datatype TransactionType = MINT | REDEEM | TRANSFER

record Transaction =
  tx_id :: i32
  tx_type :: TransactionType
  tx_user :: address
  tx_monAmount :: int
  tx_stratAmount :: int
  tx_fee :: int
  tx_timestamp :: int
  tx_blockNumber :: int
  tx_txHash :: bytes32
  tx_userEntity :: address

record User =
  u_id :: address
  u_address :: address
  u_totalLotteryWinnings :: int
  u_totalAuctionWinnings :: int
  u_totalAuctionSpent :: int
  u_lotteryWinCount :: i32
  u_auctionWinCount :: i32
  u_totalMinted :: int
  u_totalRedeemed :: int
  u_transactionCount :: i32

record ProtocolStats =
  ps_totalLotteryPrizes :: int
  ps_totalAuctionPrizes :: int
  ps_totalLotteryClaimed :: int
  ps_totalAuctionClaimed :: int
  ps_totalLotteryExpired :: int
  ps_totalAuctionExpired :: int
  ps_lotteryCount :: i32
  ps_auctionCount :: i32
  ps_totalMinted :: int
  ps_totalRedeemed :: int
  ps_totalFees :: int
  ps_totalTransactions :: i32
  ps_transactionCounter :: i32

record Bid =
  bid_bidder :: address
  bid_amount :: int
  bid_day :: int
  bid_timestamp :: int
  bid_blockNumber :: int
  bid_txHash :: bytes32
  bid_auction :: int

section \<open>The entity store\<close>

text \<open>
  Modelled from the spec: the persistent key-value entity store is an external
  collaborator (the host's \<open>store\<close> and the generated entity classes are not part of the
  sources); the spec gives its interface as load-by-key, full overwrite-by-key (save) and
  delete-by-key. One table per entity type; \<open>ProtocolStats\<close> lives under the single key
  \<open>"protocol-stats"\<close>; a bid is keyed by transaction hash and log index.
\<close>

record Store =
  lotteryPrizeTbl :: "int \<rightharpoonup> LotteryPrize"
  auctionPrizeTbl :: "int \<rightharpoonup> AuctionPrize"
  transactionTbl :: "i32 \<rightharpoonup> Transaction"
  userTbl :: "address \<rightharpoonup> User"
  protocolStatsTbl :: "ProtocolStats option"
  bidTbl :: "(bytes32 \<times> int) \<rightharpoonup> Bid"

definition emptyStore :: Store where
  "emptyStore = \<lparr>lotteryPrizeTbl = Map.empty, auctionPrizeTbl = Map.empty,
     transactionTbl = Map.empty, userTbl = Map.empty, protocolStatsTbl = None,
     bidTbl = Map.empty\<rparr>"

definition LotteryPrize_save :: "LotteryPrize \<Rightarrow> Store \<Rightarrow> Store" where
  "LotteryPrize_save p s = s\<lparr>lotteryPrizeTbl := (lotteryPrizeTbl s)(lp_id p \<mapsto> p)\<rparr>"

definition AuctionPrize_save :: "AuctionPrize \<Rightarrow> Store \<Rightarrow> Store" where
  "AuctionPrize_save p s = s\<lparr>auctionPrizeTbl := (auctionPrizeTbl s)(ap_id p \<mapsto> p)\<rparr>"

definition Transaction_save :: "Transaction \<Rightarrow> Store \<Rightarrow> Store" where
  "Transaction_save t s = s\<lparr>transactionTbl := (transactionTbl s)(tx_id t \<mapsto> t)\<rparr>"

definition User_save :: "User \<Rightarrow> Store \<Rightarrow> Store" where
  "User_save u s = s\<lparr>userTbl := (userTbl s)(u_id u \<mapsto> u)\<rparr>"

definition ProtocolStats_save :: "ProtocolStats \<Rightarrow> Store \<Rightarrow> Store" where
  "ProtocolStats_save st s = s\<lparr>protocolStatsTbl := Some st\<rparr>"

definition Bid_save :: "bytes32 \<times> int \<Rightarrow> Bid \<Rightarrow> Store \<Rightarrow> Store" where
  "Bid_save k b s = s\<lparr>bidTbl := (bidTbl s)(k \<mapsto> b)\<rparr>"

definition remove_Transaction :: "i32 \<Rightarrow> Store \<Rightarrow> Store" where
  "remove_Transaction k s = s\<lparr>transactionTbl := (transactionTbl s)(k := None)\<rparr>"

definition remove_LotteryPrize :: "int \<Rightarrow> Store \<Rightarrow> Store" where
  "remove_LotteryPrize k s = s\<lparr>lotteryPrizeTbl := (lotteryPrizeTbl s)(k := None)\<rparr>"

definition remove_AuctionPrize :: "int \<Rightarrow> Store \<Rightarrow> Store" where
  "remove_AuctionPrize k s = s\<lparr>auctionPrizeTbl := (auctionPrizeTbl s)(k := None)\<rparr>"

section \<open>Get-or-create accessors\<close>

definition getOrCreateUser :: "address \<Rightarrow> Store \<Rightarrow> User \<times> Store" where
  "getOrCreateUser a s =
     (case userTbl s a of
        Some user \<Rightarrow> (user, s)
      | None \<Rightarrow>
          (let user = \<lparr>u_id = a, u_address = a, u_totalLotteryWinnings = 0,
                       u_totalAuctionWinnings = 0, u_totalAuctionSpent = 0,
                       u_lotteryWinCount = 0, u_auctionWinCount = 0, u_totalMinted = 0,
                       u_totalRedeemed = 0, u_transactionCount = 0\<rparr>
           in (user, User_save user s)))"

definition getOrCreateProtocolStats :: "Store \<Rightarrow> ProtocolStats \<times> Store" where
  "getOrCreateProtocolStats s =
     (case protocolStatsTbl s of
        Some stats \<Rightarrow> (stats, s)
      | None \<Rightarrow>
          (let stats = \<lparr>ps_totalLotteryPrizes = 0, ps_totalAuctionPrizes = 0,
                        ps_totalLotteryClaimed = 0, ps_totalAuctionClaimed = 0,
                        ps_totalLotteryExpired = 0, ps_totalAuctionExpired = 0,
                        ps_lotteryCount = 0, ps_auctionCount = 0, ps_totalMinted = 0,
                        ps_totalRedeemed = 0, ps_totalFees = 0, ps_totalTransactions = 0,
                        ps_transactionCounter = 0\<rparr>
           in (stats, ProtocolStats_save stats s)))"

section \<open>Rotation\<close>

text \<open>
  \<open>rotateTransactions\<close> first collects the records under the keys \<open>0, 1, 2, \<dots>\<close> until
  a key is missing. The source loop is \<open>while (true)\<close> with a 32-bit counter, so it is a
  partial function: on a table holding every 32-bit key it never returns.
\<close>

partial_function (option) probeTransactions ::
  "(i32 \<rightharpoonup> Transaction) \<Rightarrow> i32 \<Rightarrow> Transaction list \<Rightarrow> Transaction list option" where
  "probeTransactions tbl i transactions =
     (case tbl i of
        None \<Rightarrow> Some transactions
      | Some tx \<Rightarrow> probeTransactions tbl (i + 1) (transactions @ [tx]))"

text \<open>
  If at least \<open>MAX_TRANSACTIONS\<close> records were collected they are sorted by ascending
  timestamp and the first \<open>length - MAX_TRANSACTIONS + 1\<close> are removed by their ids. The
  comparator returns 0 on equal timestamps; \<open>sort_key\<close> is the stable order.
\<close>

definition rotateTransactions :: "Store \<Rightarrow> Store option" where
  "rotateTransactions s =
     (case probeTransactions (transactionTbl s) 0 [] of
        None \<Rightarrow> None
      | Some transactions \<Rightarrow>
          Some (if length transactions \<ge> MAX_TRANSACTIONS
                then foldl (\<lambda>s' tx. remove_Transaction (tx_id tx) s') s
                       (take (length transactions - MAX_TRANSACTIONS + 1)
                          (sort_key tx_timestamp transactions))
                else s))"

text \<open>
  The prize rotations scan \<open>i = 0 \<dots> 99\<close>, stop at the first negative day and remove
  the record of each day that has one.
\<close>

fun rotateLotteryLoop :: "nat list \<Rightarrow> int \<Rightarrow> Store \<Rightarrow> Store" where
  "rotateLotteryLoop [] oldestDayToKeep s = s"
| "rotateLotteryLoop (i # rest) oldestDayToKeep s =
     (let dayToCheck = oldestDayToKeep - int (i + 1) in
      if dayToCheck < 0 then s
      else rotateLotteryLoop rest oldestDayToKeep
             (case lotteryPrizeTbl s dayToCheck of
                Some prize \<Rightarrow> remove_LotteryPrize dayToCheck s
              | None \<Rightarrow> s))"

definition rotateLotteryPrizes :: "int \<Rightarrow> Store \<Rightarrow> Store" where
  "rotateLotteryPrizes currentDay s =
     rotateLotteryLoop [0..<100] (currentDay - (MAX_PRIZES - 1)) s"

fun rotateAuctionLoop :: "nat list \<Rightarrow> int \<Rightarrow> Store \<Rightarrow> Store" where
  "rotateAuctionLoop [] oldestDayToKeep s = s"
| "rotateAuctionLoop (i # rest) oldestDayToKeep s =
     (let dayToCheck = oldestDayToKeep - int (i + 1) in
      if dayToCheck < 0 then s
      else rotateAuctionLoop rest oldestDayToKeep
             (case auctionPrizeTbl s dayToCheck of
                Some prize \<Rightarrow> remove_AuctionPrize dayToCheck s
              | None \<Rightarrow> s))"

definition rotateAuctionPrizes :: "int \<Rightarrow> Store \<Rightarrow> Store" where
  "rotateAuctionPrizes currentDay s =
     rotateAuctionLoop [0..<100] (currentDay - (MAX_PRIZES - 1)) s"

section \<open>Prize handlers\<close>

definition handleLotteryWon :: "Meta \<Rightarrow> int \<Rightarrow> address \<Rightarrow> int \<Rightarrow> Store \<Rightarrow> Store" where
  "handleLotteryWon event day winner amount s0 =
     (let s1 = rotateLotteryPrizes day s0;
          (user, s2) = getOrCreateUser winner s1;
          prize = \<lparr>lp_id = day, lp_day = day, lp_winner = winner, lp_amount = amount,
                   lp_claimed = False, lp_expired = False,
                   lp_timestamp = blockTimestamp event, lp_blockNumber = blockNumber event,
                   lp_txHash = transactionHash event, lp_user = u_id user,
                   lp_claimTimestamp = None, lp_claimTxHash = None,
                   lp_expiryTimestamp = None, lp_expiryTxHash = None,
                   lp_beneficiary = None\<rparr>;
          s3 = User_save (user\<lparr>u_lotteryWinCount := u_lotteryWinCount user + 1,
                               u_totalLotteryWinnings := u_totalLotteryWinnings user + amount\<rparr>) s2;
          (stats, s4) = getOrCreateProtocolStats s3;
          s5 = ProtocolStats_save (stats\<lparr>ps_lotteryCount := ps_lotteryCount stats + 1,
                                        ps_totalLotteryPrizes := ps_totalLotteryPrizes stats + amount\<rparr>) s4
      in LotteryPrize_save prize s5)"

definition handleAuctionWon :: "Meta \<Rightarrow> int \<Rightarrow> address \<Rightarrow> int \<Rightarrow> int \<Rightarrow> Store \<Rightarrow> Store" where
  "handleAuctionWon event day winner stratAmount monPaid s0 =
     (let s1 = rotateAuctionPrizes day s0;
          (user, s2) = getOrCreateUser winner s1;
          prize = \<lparr>ap_id = day, ap_day = day, ap_winner = winner,
                   ap_stratAmount = stratAmount, ap_monPaid = monPaid,
                   ap_claimed = False, ap_expired = False,
                   ap_timestamp = blockTimestamp event, ap_blockNumber = blockNumber event,
                   ap_txHash = transactionHash event, ap_bidCount = 0, ap_user = u_id user,
                   ap_claimTimestamp = None, ap_claimTxHash = None,
                   ap_expiryTimestamp = None, ap_expiryTxHash = None,
                   ap_beneficiary = None\<rparr>;
          s3 = User_save (user\<lparr>u_auctionWinCount := u_auctionWinCount user + 1,
                               u_totalAuctionWinnings := u_totalAuctionWinnings user + stratAmount,
                               u_totalAuctionSpent := u_totalAuctionSpent user + monPaid\<rparr>) s2;
          (stats, s4) = getOrCreateProtocolStats s3;
          s5 = ProtocolStats_save (stats\<lparr>ps_auctionCount := ps_auctionCount stats + 1,
                                        ps_totalAuctionPrizes := ps_totalAuctionPrizes stats + stratAmount\<rparr>) s4
      in AuctionPrize_save prize s5)"

text \<open>
  The claim and expiry handlers scan the day keys \<open>i = 0 \<dots> 29\<close> of the lottery table
  and stop at the first record that matches; the returned flag is \<open>foundLottery\<close>. Only
  when no lottery record matched is the auction table scanned the same way.
\<close>

fun claimLotteryLoop :: "nat list \<Rightarrow> Meta \<Rightarrow> address \<Rightarrow> int \<Rightarrow> Store \<Rightarrow> bool \<times> Store" where
  "claimLotteryLoop [] event winner amount s = (False, s)"
| "claimLotteryLoop (i # rest) event winner amount s =
     (case lotteryPrizeTbl s (int i) of
        None \<Rightarrow> claimLotteryLoop rest event winner amount s
      | Some lottery \<Rightarrow>
          if lp_winner lottery = winner \<and> lp_amount lottery = amount \<and>
             \<not> lp_claimed lottery \<and> \<not> lp_expired lottery
          then (let s1 = LotteryPrize_save
                           (lottery\<lparr>lp_claimed := True,
                                    lp_claimTimestamp := Some (blockTimestamp event),
                                    lp_claimTxHash := Some (transactionHash event)\<rparr>) s;
                    (stats, s2) = getOrCreateProtocolStats s1
                in (True, ProtocolStats_save
                            (stats\<lparr>ps_totalLotteryClaimed := ps_totalLotteryClaimed stats + amount\<rparr>) s2))
          else claimLotteryLoop rest event winner amount s)"

fun claimAuctionLoop :: "nat list \<Rightarrow> Meta \<Rightarrow> address \<Rightarrow> int \<Rightarrow> Store \<Rightarrow> Store" where
  "claimAuctionLoop [] event winner amount s = s"
| "claimAuctionLoop (i # rest) event winner amount s =
     (case auctionPrizeTbl s (int i) of
        None \<Rightarrow> claimAuctionLoop rest event winner amount s
      | Some auction \<Rightarrow>
          if ap_winner auction = winner \<and> ap_stratAmount auction = amount \<and>
             \<not> ap_claimed auction \<and> \<not> ap_expired auction
          then (let s1 = AuctionPrize_save
                           (auction\<lparr>ap_claimed := True,
                                    ap_claimTimestamp := Some (blockTimestamp event),
                                    ap_claimTxHash := Some (transactionHash event)\<rparr>) s;
                    (stats, s2) = getOrCreateProtocolStats s1
                in ProtocolStats_save
                     (stats\<lparr>ps_totalAuctionClaimed := ps_totalAuctionClaimed stats + amount\<rparr>) s2)
          else claimAuctionLoop rest event winner amount s)"

definition handlePrizeClaimed :: "Meta \<Rightarrow> address \<Rightarrow> int \<Rightarrow> Store \<Rightarrow> Store" where
  "handlePrizeClaimed event winner amount s =
     (let (foundLottery, s1) = claimLotteryLoop [0..<30] event winner amount s
      in if \<not> foundLottery then claimAuctionLoop [0..<30] event winner amount s1 else s1)"

fun expireLotteryLoop :: "nat list \<Rightarrow> Meta \<Rightarrow> address \<Rightarrow> address \<Rightarrow> Store \<Rightarrow> bool \<times> Store" where
  "expireLotteryLoop [] event previousWinner beneficiary s = (False, s)"
| "expireLotteryLoop (i # rest) event previousWinner beneficiary s =
     (case lotteryPrizeTbl s (int i) of
        None \<Rightarrow> expireLotteryLoop rest event previousWinner beneficiary s
      | Some lottery \<Rightarrow>
          if lp_winner lottery = previousWinner \<and>
             \<not> lp_claimed lottery \<and> \<not> lp_expired lottery
          then (let s1 = LotteryPrize_save
                           (lottery\<lparr>lp_expired := True,
                                    lp_expiryTimestamp := Some (blockTimestamp event),
                                    lp_expiryTxHash := Some (transactionHash event),
                                    lp_beneficiary := Some beneficiary\<rparr>) s;
                    (stats, s2) = getOrCreateProtocolStats s1
                in (True, ProtocolStats_save
                            (stats\<lparr>ps_totalLotteryExpired :=
                                      ps_totalLotteryExpired stats + lp_amount lottery\<rparr>) s2))
          else expireLotteryLoop rest event previousWinner beneficiary s)"

fun expireAuctionLoop :: "nat list \<Rightarrow> Meta \<Rightarrow> address \<Rightarrow> address \<Rightarrow> Store \<Rightarrow> Store" where
  "expireAuctionLoop [] event previousWinner beneficiary s = s"
| "expireAuctionLoop (i # rest) event previousWinner beneficiary s =
     (case auctionPrizeTbl s (int i) of
        None \<Rightarrow> expireAuctionLoop rest event previousWinner beneficiary s
      | Some auction \<Rightarrow>
          if ap_winner auction = previousWinner \<and>
             \<not> ap_claimed auction \<and> \<not> ap_expired auction
          then (let s1 = AuctionPrize_save
                           (auction\<lparr>ap_expired := True,
                                    ap_expiryTimestamp := Some (blockTimestamp event),
                                    ap_expiryTxHash := Some (transactionHash event),
                                    ap_beneficiary := Some beneficiary\<rparr>) s;
                    (stats, s2) = getOrCreateProtocolStats s1
                in ProtocolStats_save
                     (stats\<lparr>ps_totalAuctionExpired :=
                               ps_totalAuctionExpired stats + ap_stratAmount auction\<rparr>) s2)
          else expireAuctionLoop rest event previousWinner beneficiary s)"

text \<open>The event's \<open>amount\<close> parameter is read into a local and never used.\<close>

definition handleBeneficiaryFunded :: "Meta \<Rightarrow> address \<Rightarrow> address \<Rightarrow> int \<Rightarrow> Store \<Rightarrow> Store" where
  "handleBeneficiaryFunded event previousWinner beneficiary amount s =
     (let (foundLottery, s1) = expireLotteryLoop [0..<30] event previousWinner beneficiary s
      in if \<not> foundLottery then expireAuctionLoop [0..<30] event previousWinner beneficiary s1
         else s1)"

definition handleAuctionStarted :: "Meta \<Rightarrow> int \<Rightarrow> int \<Rightarrow> Store \<Rightarrow> Store" where
  "handleAuctionStarted event day stratAmount s =
     (case auctionPrizeTbl s day of
        Some auction \<Rightarrow> s
      | None \<Rightarrow>
          AuctionPrize_save
            \<lparr>ap_id = day, ap_day = day, ap_winner = 0x0000000000000000000000000000000000000000,
             ap_stratAmount = stratAmount, ap_monPaid = 0,
             ap_claimed = False, ap_expired = False,
             ap_timestamp = blockTimestamp event, ap_blockNumber = blockNumber event,
             ap_txHash = transactionHash event, ap_bidCount = 0,
             ap_user = 0x0000000000000000000000000000000000000000,
             ap_claimTimestamp = None, ap_claimTxHash = None,
             ap_expiryTimestamp = None, ap_expiryTxHash = None,
             ap_beneficiary = None\<rparr> s)"

definition handleBidPlaced :: "Meta \<Rightarrow> int \<Rightarrow> address \<Rightarrow> int \<Rightarrow> Store \<Rightarrow> Store" where
  "handleBidPlaced event day bidder amount s =
     (let bid = \<lparr>bid_bidder = bidder, bid_amount = amount, bid_day = day,
                 bid_timestamp = blockTimestamp event, bid_blockNumber = blockNumber event,
                 bid_txHash = transactionHash event, bid_auction = day\<rparr>;
          s1 = (case auctionPrizeTbl s day of
                  Some auction \<Rightarrow>
                    AuctionPrize_save (auction\<lparr>ap_bidCount := ap_bidCount auction + 1\<rparr>) s
                | None \<Rightarrow> s)
      in Bid_save (transactionHash event, logIndex event) bid s1)"

section \<open>Transaction handlers\<close>

text \<open>
  Each of the three handlers rotates first, then takes the new record's id from the
  sequence counter of \<open>ProtocolStats\<close>, updates the user and the statistics and saves the
  record. They return no store when the probe of the rotation does not return.
\<close>

definition handleMinted :: "Meta \<Rightarrow> address \<Rightarrow> int \<Rightarrow> int \<Rightarrow> int \<Rightarrow> Store \<Rightarrow> Store option" where
  "handleMinted event to_addr monAmount stratAmount fee s0 =
     (case rotateTransactions s0 of
        None \<Rightarrow> None
      | Some s1 \<Rightarrow>
          (let (stats, s2) = getOrCreateProtocolStats s1;
               (user, s3) = getOrCreateUser to_addr s2;
               transaction = \<lparr>tx_id = ps_transactionCounter stats, tx_type = MINT,
                               tx_user = to_addr, tx_monAmount = monAmount,
                               tx_stratAmount = stratAmount, tx_fee = fee,
                               tx_timestamp = blockTimestamp event,
                               tx_blockNumber = blockNumber event,
                               tx_txHash = transactionHash event, tx_userEntity = u_id user\<rparr>;
               s4 = User_save (user\<lparr>u_totalMinted := u_totalMinted user + stratAmount,
                                    u_transactionCount := u_transactionCount user + 1\<rparr>) s3;
               s5 = ProtocolStats_save
                      (stats\<lparr>ps_totalMinted := ps_totalMinted stats + stratAmount,
                             ps_totalFees := ps_totalFees stats + fee,
                             ps_totalTransactions := ps_totalTransactions stats + 1,
                             ps_transactionCounter := ps_transactionCounter stats + 1\<rparr>) s4
           in Some (Transaction_save transaction s5)))"

definition handleRedeemed :: "Meta \<Rightarrow> address \<Rightarrow> int \<Rightarrow> int \<Rightarrow> int \<Rightarrow> Store \<Rightarrow> Store option" where
  "handleRedeemed event from_addr monAmount stratAmount fee s0 =
     (case rotateTransactions s0 of
        None \<Rightarrow> None
      | Some s1 \<Rightarrow>
          (let (stats, s2) = getOrCreateProtocolStats s1;
               (user, s3) = getOrCreateUser from_addr s2;
               transaction = \<lparr>tx_id = ps_transactionCounter stats, tx_type = REDEEM,
                               tx_user = from_addr, tx_monAmount = monAmount,
                               tx_stratAmount = stratAmount, tx_fee = fee,
                               tx_timestamp = blockTimestamp event,
                               tx_blockNumber = blockNumber event,
                               tx_txHash = transactionHash event, tx_userEntity = u_id user\<rparr>;
               s4 = User_save (user\<lparr>u_totalRedeemed := u_totalRedeemed user + stratAmount,
                                    u_transactionCount := u_transactionCount user + 1\<rparr>) s3;
               s5 = ProtocolStats_save
                      (stats\<lparr>ps_totalRedeemed := ps_totalRedeemed stats + stratAmount,
                             ps_totalFees := ps_totalFees stats + fee,
                             ps_totalTransactions := ps_totalTransactions stats + 1,
                             ps_transactionCounter := ps_transactionCounter stats + 1\<rparr>) s4
           in Some (Transaction_save transaction s5)))"

definition handleTransfer :: "Meta \<Rightarrow> address \<Rightarrow> address \<Rightarrow> int \<Rightarrow> Store \<Rightarrow> Store option" where
  "handleTransfer event from_addr to_addr val s0 =
     (if to_addr \<noteq> FEES_POOL_ADDRESS then Some s0
      else if from_addr = ADDRESS_ZERO then Some s0
      else
        (case rotateTransactions s0 of
           None \<Rightarrow> None
         | Some s1 \<Rightarrow>
             (let (stats, s2) = getOrCreateProtocolStats s1;
                  (user, s3) = getOrCreateUser from_addr s2;
                  transaction = \<lparr>tx_id = ps_transactionCounter stats, tx_type = TRANSFER,
                                  tx_user = from_addr, tx_monAmount = 0,
                                  tx_stratAmount = val, tx_fee = 0,
                                  tx_timestamp = blockTimestamp event,
                                  tx_blockNumber = blockNumber event,
                                  tx_txHash = transactionHash event, tx_userEntity = u_id user\<rparr>;
                  s4 = User_save (user\<lparr>u_transactionCount := u_transactionCount user + 1\<rparr>) s3;
                  s5 = ProtocolStats_save
                         (stats\<lparr>ps_totalTransactions := ps_totalTransactions stats + 1,
                                ps_transactionCounter := ps_transactionCounter stats + 1\<rparr>) s4
              in Some (Transaction_save transaction s5))))"

section \<open>The projection\<close>

text \<open>
  The host calls one handler per event, in the order of the log. The projection of a
  log is the fold of the handlers over it; it yields no store when a handler does not
  return.
\<close>

fun handleEvent :: "Event \<Rightarrow> Store \<Rightarrow> Store option" where
  "handleEvent (LotteryWon ev day winner amount) s = Some (handleLotteryWon ev day winner amount s)"
| "handleEvent (AuctionWon ev day winner stratAmount monPaid) s =
     Some (handleAuctionWon ev day winner stratAmount monPaid s)"
| "handleEvent (PrizeClaimed ev winner amount) s = Some (handlePrizeClaimed ev winner amount s)"
| "handleEvent (BeneficiaryFunded ev previousWinner beneficiary amount) s =
     Some (handleBeneficiaryFunded ev previousWinner beneficiary amount s)"
| "handleEvent (AuctionStarted ev day stratAmount) s = Some (handleAuctionStarted ev day stratAmount s)"
| "handleEvent (BidPlaced ev day bidder amount) s = Some (handleBidPlaced ev day bidder amount s)"
| "handleEvent (Minted ev to_addr monAmount stratAmount fee) s =
     handleMinted ev to_addr monAmount stratAmount fee s"
| "handleEvent (Redeemed ev from_addr monAmount stratAmount fee) s =
     handleRedeemed ev from_addr monAmount stratAmount fee s"
| "handleEvent (Transfer ev from_addr to_addr val) s = handleTransfer ev from_addr to_addr val s"

fun processEvents :: "Event list \<Rightarrow> Store \<Rightarrow> Store option" where
  "processEvents [] s = Some s"
| "processEvents (e # es) s =
     (case handleEvent e s of None \<Rightarrow> None | Some s' \<Rightarrow> processEvents es s')"

section \<open>Auxiliary definitions for the verification\<close>

text \<open>
  The sequence counter a handler reads through \<open>getOrCreateProtocolStats\<close>: the stored
  counter, or 0 when the statistics record does not exist yet.
\<close>

definition counterOf :: "Store \<Rightarrow> i32" where
  "counterOf s = (case protocolStatsTbl s of None \<Rightarrow> 0 | Some stats \<Rightarrow> ps_transactionCounter stats)"

text \<open>
  The records the three transaction handlers save, as functions of the event and of the
  store the handler starts from.
\<close>

definition mintedTx :: "Meta \<Rightarrow> address \<Rightarrow> int \<Rightarrow> int \<Rightarrow> int \<Rightarrow> Store \<Rightarrow> Transaction" where
  "mintedTx ev a m st f s = \<lparr>tx_id = counterOf s, tx_type = MINT,
       tx_user = a, tx_monAmount = m, tx_stratAmount = st, tx_fee = f,
       tx_timestamp = blockTimestamp ev, tx_blockNumber = blockNumber ev,
       tx_txHash = transactionHash ev,
       tx_userEntity = (case userTbl s a of None \<Rightarrow> a | Some u \<Rightarrow> u_id u)\<rparr>"

definition redeemedTx :: "Meta \<Rightarrow> address \<Rightarrow> int \<Rightarrow> int \<Rightarrow> int \<Rightarrow> Store \<Rightarrow> Transaction" where
  "redeemedTx ev a m st f s = \<lparr>tx_id = counterOf s, tx_type = REDEEM,
       tx_user = a, tx_monAmount = m, tx_stratAmount = st, tx_fee = f,
       tx_timestamp = blockTimestamp ev, tx_blockNumber = blockNumber ev,
       tx_txHash = transactionHash ev,
       tx_userEntity = (case userTbl s a of None \<Rightarrow> a | Some u \<Rightarrow> u_id u)\<rparr>"

definition transferTx :: "Meta \<Rightarrow> address \<Rightarrow> int \<Rightarrow> Store \<Rightarrow> Transaction" where
  "transferTx ev a v s = \<lparr>tx_id = counterOf s, tx_type = TRANSFER,
       tx_user = a, tx_monAmount = 0, tx_stratAmount = v, tx_fee = 0,
       tx_timestamp = blockTimestamp ev, tx_blockNumber = blockNumber ev,
       tx_txHash = transactionHash ev,
       tx_userEntity = (case userTbl s a of None \<Rightarrow> a | Some u \<Rightarrow> u_id u)\<rparr>"

text \<open>
  Invariant of the prize tables: a record sits under the key of its own day, it is never
  both claimed and expired, and from day 30 on it is neither.
\<close>

definition lotteryInv :: "(int \<rightharpoonup> LotteryPrize) \<Rightarrow> bool" where
  "lotteryInv tbl = (\<forall>k p. tbl k = Some p \<longrightarrow>
      lp_id p = k \<and> lp_day p = k \<and> \<not> (lp_claimed p \<and> lp_expired p) \<and>
      (30 \<le> k \<longrightarrow> \<not> lp_claimed p \<and> \<not> lp_expired p))"

definition auctionInv :: "(int \<rightharpoonup> AuctionPrize) \<Rightarrow> bool" where
  "auctionInv tbl = (\<forall>k p. tbl k = Some p \<longrightarrow>
      ap_id p = k \<and> ap_day p = k \<and> \<not> (ap_claimed p \<and> ap_expired p) \<and>
      (30 \<le> k \<longrightarrow> \<not> ap_claimed p \<and> \<not> ap_expired p))"

text \<open>
  Invariant of the transaction table while fewer than \<open>2 ^ 32\<close> records have been keyed:
  the counter is the number \<open>n\<close> of records created so far and every live key is below it.
\<close>

definition txInv :: "nat \<Rightarrow> Store \<Rightarrow> bool" where
  "txInv n s = (counterOf s = of_nat n \<and> (\<forall>k tx. transactionTbl s k = Some tx \<longrightarrow> unat k < n))"

text \<open>Event logs that consist of lottery wins, their days, and the gaps between the days.\<close>

fun isLotteryWon :: "Event \<Rightarrow> bool" where
  "isLotteryWon (LotteryWon ev day winner amount) = True"
| "isLotteryWon _ = False"

fun lotteryDay :: "Event \<Rightarrow> int" where
  "lotteryDay (LotteryWon ev day winner amount) = day"
| "lotteryDay _ = 0"

fun gapsWithin :: "int \<Rightarrow> int list \<Rightarrow> bool" where
  "gapsWithin g (x # y # rest) = (y - x \<le> g \<and> gapsWithin g (y # rest))"
| "gapsWithin g _ = True"

text \<open>Concrete events and observations for the evaluated scenarios.\<close>

definition metaAt :: "int \<Rightarrow> Meta" where
  "metaAt t = \<lparr>blockTimestamp = t, blockNumber = t, transactionHash = 0, logIndex = t\<rparr>"

definition lotteryAt :: "int \<Rightarrow> Event" where
  "lotteryAt d = LotteryWon (metaAt d) d 1 1"

definition mintAt :: "int \<Rightarrow> Event" where
  "mintAt t = Minted (metaAt t) 1 0 0 0"

definition lotteryPrizeLive :: "Store option \<Rightarrow> int \<Rightarrow> bool" where
  "lotteryPrizeLive r d = (case r of None \<Rightarrow> False | Some s \<Rightarrow> lotteryPrizeTbl s d \<noteq> None)"

definition liveTransactions :: "Store option \<Rightarrow> nat option" where
  "liveTransactions r = map_option (\<lambda>s. card (dom (transactionTbl s))) r"

definition bidCountOn :: "int \<Rightarrow> Store option \<Rightarrow> i32 option" where
  "bidCountOn day r = (case r of None \<Rightarrow> None | Some s \<Rightarrow> map_option ap_bidCount (auctionPrizeTbl s day))"

definition totalLotteryClaimedOf :: "Store \<Rightarrow> int" where
  "totalLotteryClaimedOf s =
     (case protocolStatsTbl s of None \<Rightarrow> 0 | Some stats \<Rightarrow> ps_totalLotteryClaimed stats)"

definition claimScenario :: Store where
  "claimScenario = handleLotteryWon (metaAt 2) 6 8 200 (handleLotteryWon (metaAt 1) 5 7 100 emptyStore)"

definition rotatedScenario :: Store where
  "rotatedScenario = handleLotteryWon (metaAt 2) 12 8 200 (handleLotteryWon (metaAt 1) 5 7 100 emptyStore)"

definition expiredScenario :: Store where
  "expiredScenario = handleBeneficiaryFunded (metaAt 2) 7 9 100 (handleLotteryWon (metaAt 1) 5 7 100 emptyStore)"


section \<open>Supporting lemmas\<close>

subsection \<open>Effect of the store operations, table by table\<close>

lemma LotteryPrize_save_simps [simp]:
  "lotteryPrizeTbl (LotteryPrize_save p s) = (lotteryPrizeTbl s)(lp_id p \<mapsto> p)"
  "auctionPrizeTbl (LotteryPrize_save p s) = auctionPrizeTbl s"
  "transactionTbl (LotteryPrize_save p s) = transactionTbl s"
  "userTbl (LotteryPrize_save p s) = userTbl s"
  "protocolStatsTbl (LotteryPrize_save p s) = protocolStatsTbl s"
  "bidTbl (LotteryPrize_save p s) = bidTbl s"
  "counterOf (LotteryPrize_save p s) = counterOf s"
  by (simp_all add: LotteryPrize_save_def counterOf_def)

lemma AuctionPrize_save_simps [simp]:
  "lotteryPrizeTbl (AuctionPrize_save p s) = lotteryPrizeTbl s"
  "auctionPrizeTbl (AuctionPrize_save p s) = (auctionPrizeTbl s)(ap_id p \<mapsto> p)"
  "transactionTbl (AuctionPrize_save p s) = transactionTbl s"
  "userTbl (AuctionPrize_save p s) = userTbl s"
  "protocolStatsTbl (AuctionPrize_save p s) = protocolStatsTbl s"
  "bidTbl (AuctionPrize_save p s) = bidTbl s"
  "counterOf (AuctionPrize_save p s) = counterOf s"
  by (simp_all add: AuctionPrize_save_def counterOf_def)

lemma Transaction_save_simps [simp]:
  "lotteryPrizeTbl (Transaction_save t s) = lotteryPrizeTbl s"
  "auctionPrizeTbl (Transaction_save t s) = auctionPrizeTbl s"
  "transactionTbl (Transaction_save t s) = (transactionTbl s)(tx_id t \<mapsto> t)"
  "userTbl (Transaction_save t s) = userTbl s"
  "protocolStatsTbl (Transaction_save t s) = protocolStatsTbl s"
  "bidTbl (Transaction_save t s) = bidTbl s"
  "counterOf (Transaction_save t s) = counterOf s"
  by (simp_all add: Transaction_save_def counterOf_def)

lemma User_save_simps [simp]:
  "lotteryPrizeTbl (User_save u s) = lotteryPrizeTbl s"
  "auctionPrizeTbl (User_save u s) = auctionPrizeTbl s"
  "transactionTbl (User_save u s) = transactionTbl s"
  "userTbl (User_save u s) = (userTbl s)(u_id u \<mapsto> u)"
  "protocolStatsTbl (User_save u s) = protocolStatsTbl s"
  "bidTbl (User_save u s) = bidTbl s"
  "counterOf (User_save u s) = counterOf s"
  by (simp_all add: User_save_def counterOf_def)

lemma ProtocolStats_save_simps [simp]:
  "lotteryPrizeTbl (ProtocolStats_save st s) = lotteryPrizeTbl s"
  "auctionPrizeTbl (ProtocolStats_save st s) = auctionPrizeTbl s"
  "transactionTbl (ProtocolStats_save st s) = transactionTbl s"
  "userTbl (ProtocolStats_save st s) = userTbl s"
  "protocolStatsTbl (ProtocolStats_save st s) = Some st"
  "bidTbl (ProtocolStats_save st s) = bidTbl s"
  "counterOf (ProtocolStats_save st s) = ps_transactionCounter st"
  by (simp_all add: ProtocolStats_save_def counterOf_def)

lemma Bid_save_simps [simp]:
  "lotteryPrizeTbl (Bid_save k b s) = lotteryPrizeTbl s"
  "auctionPrizeTbl (Bid_save k b s) = auctionPrizeTbl s"
  "transactionTbl (Bid_save k b s) = transactionTbl s"
  "userTbl (Bid_save k b s) = userTbl s"
  "protocolStatsTbl (Bid_save k b s) = protocolStatsTbl s"
  "bidTbl (Bid_save k b s) = (bidTbl s)(k \<mapsto> b)"
  "counterOf (Bid_save k b s) = counterOf s"
  by (simp_all add: Bid_save_def counterOf_def)

lemma remove_Transaction_simps [simp]:
  "lotteryPrizeTbl (remove_Transaction k s) = lotteryPrizeTbl s"
  "auctionPrizeTbl (remove_Transaction k s) = auctionPrizeTbl s"
  "transactionTbl (remove_Transaction k s) = (transactionTbl s)(k := None)"
  "userTbl (remove_Transaction k s) = userTbl s"
  "protocolStatsTbl (remove_Transaction k s) = protocolStatsTbl s"
  "bidTbl (remove_Transaction k s) = bidTbl s"
  "counterOf (remove_Transaction k s) = counterOf s"
  by (simp_all add: remove_Transaction_def counterOf_def)

lemma remove_LotteryPrize_simps [simp]:
  "lotteryPrizeTbl (remove_LotteryPrize k s) = (lotteryPrizeTbl s)(k := None)"
  "auctionPrizeTbl (remove_LotteryPrize k s) = auctionPrizeTbl s"
  "transactionTbl (remove_LotteryPrize k s) = transactionTbl s"
  "userTbl (remove_LotteryPrize k s) = userTbl s"
  "protocolStatsTbl (remove_LotteryPrize k s) = protocolStatsTbl s"
  "bidTbl (remove_LotteryPrize k s) = bidTbl s"
  "counterOf (remove_LotteryPrize k s) = counterOf s"
  by (simp_all add: remove_LotteryPrize_def counterOf_def)

lemma remove_AuctionPrize_simps [simp]:
  "lotteryPrizeTbl (remove_AuctionPrize k s) = lotteryPrizeTbl s"
  "auctionPrizeTbl (remove_AuctionPrize k s) = (auctionPrizeTbl s)(k := None)"
  "transactionTbl (remove_AuctionPrize k s) = transactionTbl s"
  "userTbl (remove_AuctionPrize k s) = userTbl s"
  "protocolStatsTbl (remove_AuctionPrize k s) = protocolStatsTbl s"
  "bidTbl (remove_AuctionPrize k s) = bidTbl s"
  "counterOf (remove_AuctionPrize k s) = counterOf s"
  by (simp_all add: remove_AuctionPrize_def counterOf_def)

lemma getOrCreateUser_simps [simp]:
  "lotteryPrizeTbl (snd (getOrCreateUser a s)) = lotteryPrizeTbl s"
  "auctionPrizeTbl (snd (getOrCreateUser a s)) = auctionPrizeTbl s"
  "transactionTbl (snd (getOrCreateUser a s)) = transactionTbl s"
  "protocolStatsTbl (snd (getOrCreateUser a s)) = protocolStatsTbl s"
  "bidTbl (snd (getOrCreateUser a s)) = bidTbl s"
  "counterOf (snd (getOrCreateUser a s)) = counterOf s"
  by (simp_all add: getOrCreateUser_def counterOf_def Let_def split: option.split)

lemma getOrCreateProtocolStats_simps [simp]:
  "lotteryPrizeTbl (snd (getOrCreateProtocolStats s)) = lotteryPrizeTbl s"
  "auctionPrizeTbl (snd (getOrCreateProtocolStats s)) = auctionPrizeTbl s"
  "transactionTbl (snd (getOrCreateProtocolStats s)) = transactionTbl s"
  "userTbl (snd (getOrCreateProtocolStats s)) = userTbl s"
  "bidTbl (snd (getOrCreateProtocolStats s)) = bidTbl s"
  "protocolStatsTbl (snd (getOrCreateProtocolStats s)) = Some (fst (getOrCreateProtocolStats s))"
  "counterOf (snd (getOrCreateProtocolStats s)) = counterOf s"
  "ps_transactionCounter (fst (getOrCreateProtocolStats s)) = counterOf s"
  by (simp_all add: getOrCreateProtocolStats_def counterOf_def Let_def split: option.split)

lemma rotateLotteryLoop_frame [simp]:
  "auctionPrizeTbl (rotateLotteryLoop is k s) = auctionPrizeTbl s"
  "transactionTbl (rotateLotteryLoop is k s) = transactionTbl s"
  "userTbl (rotateLotteryLoop is k s) = userTbl s"
  "protocolStatsTbl (rotateLotteryLoop is k s) = protocolStatsTbl s"
  "bidTbl (rotateLotteryLoop is k s) = bidTbl s"
  "counterOf (rotateLotteryLoop is k s) = counterOf s"
  by (induction "is" arbitrary: s; simp add: Let_def split: option.split)+

lemma rotateAuctionLoop_frame [simp]:
  "lotteryPrizeTbl (rotateAuctionLoop is k s) = lotteryPrizeTbl s"
  "transactionTbl (rotateAuctionLoop is k s) = transactionTbl s"
  "userTbl (rotateAuctionLoop is k s) = userTbl s"
  "protocolStatsTbl (rotateAuctionLoop is k s) = protocolStatsTbl s"
  "bidTbl (rotateAuctionLoop is k s) = bidTbl s"
  "counterOf (rotateAuctionLoop is k s) = counterOf s"
  by (induction "is" arbitrary: s; simp add: Let_def split: option.split)+

lemma rotateLotteryPrizes_frame [simp]:
  "auctionPrizeTbl (rotateLotteryPrizes D s) = auctionPrizeTbl s"
  "transactionTbl (rotateLotteryPrizes D s) = transactionTbl s"
  "userTbl (rotateLotteryPrizes D s) = userTbl s"
  "protocolStatsTbl (rotateLotteryPrizes D s) = protocolStatsTbl s"
  "bidTbl (rotateLotteryPrizes D s) = bidTbl s"
  "counterOf (rotateLotteryPrizes D s) = counterOf s"
  unfolding rotateLotteryPrizes_def by (rule rotateLotteryLoop_frame)+

lemma rotateAuctionPrizes_frame [simp]:
  "lotteryPrizeTbl (rotateAuctionPrizes D s) = lotteryPrizeTbl s"
  "transactionTbl (rotateAuctionPrizes D s) = transactionTbl s"
  "userTbl (rotateAuctionPrizes D s) = userTbl s"
  "protocolStatsTbl (rotateAuctionPrizes D s) = protocolStatsTbl s"
  "bidTbl (rotateAuctionPrizes D s) = bidTbl s"
  "counterOf (rotateAuctionPrizes D s) = counterOf s"
  unfolding rotateAuctionPrizes_def by (rule rotateAuctionLoop_frame)+

lemma claimLotteryLoop_frame [simp]:
  "auctionPrizeTbl (snd (claimLotteryLoop is ev w a s)) = auctionPrizeTbl s"
  "transactionTbl (snd (claimLotteryLoop is ev w a s)) = transactionTbl s"
  "counterOf (snd (claimLotteryLoop is ev w a s)) = counterOf s"
  by (induction "is" arbitrary: s; simp add: Let_def split_def split: option.split)+

lemma claimAuctionLoop_frame [simp]:
  "lotteryPrizeTbl (claimAuctionLoop is ev w a s) = lotteryPrizeTbl s"
  "transactionTbl (claimAuctionLoop is ev w a s) = transactionTbl s"
  "counterOf (claimAuctionLoop is ev w a s) = counterOf s"
  by (induction "is" arbitrary: s; simp add: Let_def split_def split: option.split)+

lemma expireLotteryLoop_frame [simp]:
  "auctionPrizeTbl (snd (expireLotteryLoop is ev w b s)) = auctionPrizeTbl s"
  "transactionTbl (snd (expireLotteryLoop is ev w b s)) = transactionTbl s"
  "counterOf (snd (expireLotteryLoop is ev w b s)) = counterOf s"
  by (induction "is" arbitrary: s; simp add: Let_def split_def split: option.split)+

lemma expireAuctionLoop_frame [simp]:
  "lotteryPrizeTbl (expireAuctionLoop is ev w b s) = lotteryPrizeTbl s"
  "transactionTbl (expireAuctionLoop is ev w b s) = transactionTbl s"
  "counterOf (expireAuctionLoop is ev w b s) = counterOf s"
  by (induction "is" arbitrary: s; simp add: Let_def split_def split: option.split)+

lemma handleLotteryWon_frame [simp]:
  "auctionPrizeTbl (handleLotteryWon ev D w a s) = auctionPrizeTbl s"
  "transactionTbl (handleLotteryWon ev D w a s) = transactionTbl s"
  "counterOf (handleLotteryWon ev D w a s) = counterOf s"
  by (simp_all add: handleLotteryWon_def Let_def split_def)

lemma handleAuctionWon_frame [simp]:
  "lotteryPrizeTbl (handleAuctionWon ev D w a m s) = lotteryPrizeTbl s"
  "transactionTbl (handleAuctionWon ev D w a m s) = transactionTbl s"
  "counterOf (handleAuctionWon ev D w a m s) = counterOf s"
  by (simp_all add: handleAuctionWon_def Let_def split_def)

lemma handlePrizeClaimed_frame [simp]:
  "transactionTbl (handlePrizeClaimed ev w a s) = transactionTbl s"
  "counterOf (handlePrizeClaimed ev w a s) = counterOf s"
  by (simp_all add: handlePrizeClaimed_def split_def Let_def del: claimLotteryLoop.simps claimAuctionLoop.simps upt_rec_numeral)

lemma handleBeneficiaryFunded_frame [simp]:
  "transactionTbl (handleBeneficiaryFunded ev w b a s) = transactionTbl s"
  "counterOf (handleBeneficiaryFunded ev w b a s) = counterOf s"
  by (simp_all add: handleBeneficiaryFunded_def split_def Let_def del: expireLotteryLoop.simps expireAuctionLoop.simps upt_rec_numeral)

lemma handleAuctionStarted_frame [simp]:
  "lotteryPrizeTbl (handleAuctionStarted ev D a s) = lotteryPrizeTbl s"
  "transactionTbl (handleAuctionStarted ev D a s) = transactionTbl s"
  "counterOf (handleAuctionStarted ev D a s) = counterOf s"
  by (simp_all add: handleAuctionStarted_def split: option.split)

lemma handleBidPlaced_frame [simp]:
  "lotteryPrizeTbl (handleBidPlaced ev D b a s) = lotteryPrizeTbl s"
  "transactionTbl (handleBidPlaced ev D b a s) = transactionTbl s"
  "counterOf (handleBidPlaced ev D b a s) = counterOf s"
  by (simp_all add: handleBidPlaced_def Let_def split: option.split)

subsection \<open>Rotation of the transaction table\<close>

lemma removeAll_frame [simp]:
  "lotteryPrizeTbl (foldl (\<lambda>s' tx. remove_Transaction (tx_id tx) s') s txs) = lotteryPrizeTbl s"
  "auctionPrizeTbl (foldl (\<lambda>s' tx. remove_Transaction (tx_id tx) s') s txs) = auctionPrizeTbl s"
  "userTbl (foldl (\<lambda>s' tx. remove_Transaction (tx_id tx) s') s txs) = userTbl s"
  "protocolStatsTbl (foldl (\<lambda>s' tx. remove_Transaction (tx_id tx) s') s txs) = protocolStatsTbl s"
  "bidTbl (foldl (\<lambda>s' tx. remove_Transaction (tx_id tx) s') s txs) = bidTbl s"
  "counterOf (foldl (\<lambda>s' tx. remove_Transaction (tx_id tx) s') s txs) = counterOf s"
  by (induction txs arbitrary: s; simp)+

lemma removeAll_tbl:
  "transactionTbl (foldl (\<lambda>s' tx. remove_Transaction (tx_id tx) s') s txs) k =
     (if k \<in> tx_id ` set txs then None else transactionTbl s k)"
  by (induction txs arbitrary: s) auto

lemma rotateTransactions_frame:
  assumes "rotateTransactions s = Some s'"
  shows "lotteryPrizeTbl s' = lotteryPrizeTbl s" "auctionPrizeTbl s' = auctionPrizeTbl s"
    "userTbl s' = userTbl s" "protocolStatsTbl s' = protocolStatsTbl s" "bidTbl s' = bidTbl s"
    "counterOf s' = counterOf s"
  using assms by (auto simp: rotateTransactions_def split: option.splits if_splits)

lemma rotateTransactions_tbl:
  assumes "rotateTransactions s = Some s'"
  shows "transactionTbl s' k = None \<or> transactionTbl s' k = transactionTbl s k"
  using assms by (auto simp: rotateTransactions_def removeAll_tbl split: option.splits if_splits)

lemma probeTransactions_terminates:
  "tbl (i + of_nat n) = None \<Longrightarrow> \<exists>r. probeTransactions tbl i acc = Some r"
proof (induction n arbitrary: i acc)
  case 0
  then show ?case by (simp add: probeTransactions.simps)
next
  case (Suc n)
  show ?case
  proof (cases "tbl i")
    case None
    then show ?thesis by (simp add: probeTransactions.simps)
  next
    case (Some tx)
    from Suc.prems have "tbl ((i + 1) + of_nat n) = None" by (simp add: ac_simps)
    from Suc.IH[OF this, of "acc @ [tx]"] Some show ?thesis
      by (subst probeTransactions.simps) simp
  qed
qed

lemma probeTransactions_missing:
  assumes "tbl k = None"
  shows "\<exists>r. probeTransactions tbl i acc = Some r"
proof -
  have "i + of_nat (unat (k - i)) = k" by simp
  with assms have "tbl (i + of_nat (unat (k - i))) = None" by simp
  then show ?thesis by (rule probeTransactions_terminates)
qed

lemma rotateTransactions_total:
  "transactionTbl s k = None \<Longrightarrow> \<exists>s'. rotateTransactions s = Some s'"
  using probeTransactions_missing[of "transactionTbl s" k 0 "[]"]
  by (auto simp: rotateTransactions_def)

lemma probeTransactions_first_missing:
  "tbl i = None \<Longrightarrow> probeTransactions tbl i acc = Some acc"
  by (simp add: probeTransactions.simps)

lemma rotateTransactions_noop:
  "transactionTbl s 0 = None \<Longrightarrow> rotateTransactions s = Some s"
  by (simp add: rotateTransactions_def probeTransactions_first_missing MAX_TRANSACTIONS_def)

lemma rotateTransactions_one:
  assumes "transactionTbl s 0 = Some x" "transactionTbl s 1 = None"
  shows "rotateTransactions s = Some s"
proof -
  have "probeTransactions (transactionTbl s) 0 [] = probeTransactions (transactionTbl s) (0 + 1) ([] @ [x])"
    using assms(1) by (subst probeTransactions.simps) simp
  also have "\<dots> = Some [x]"
    using assms(2) by (subst probeTransactions.simps) simp
  finally show ?thesis by (simp add: rotateTransactions_def MAX_TRANSACTIONS_def)
qed

lemma fst_getOrCreateUser_id:
  "u_id (fst (getOrCreateUser a s)) = (case userTbl s a of None \<Rightarrow> a | Some u \<Rightarrow> u_id u)"
  by (simp add: getOrCreateUser_def Let_def split: option.split)

lemma handleMinted_Some:
  assumes "rotateTransactions s = Some s1"
  shows "\<exists>s'. handleMinted ev a m st f s = Some s' \<and>
           transactionTbl s' = (transactionTbl s1)(counterOf s \<mapsto> mintedTx ev a m st f s) \<and>
           counterOf s' = counterOf s + 1 \<and>
           lotteryPrizeTbl s' = lotteryPrizeTbl s \<and> auctionPrizeTbl s' = auctionPrizeTbl s"
  using assms rotateTransactions_frame[OF assms]
  by (simp add: handleMinted_def Let_def split_def mintedTx_def fst_getOrCreateUser_id)

subsection \<open>Invariants of the prize tables\<close>

lemma lotteryInv_upd:
  "lotteryInv tbl \<Longrightarrow> lp_id p = k \<Longrightarrow> lp_day p = k \<Longrightarrow> \<not> (lp_claimed p \<and> lp_expired p) \<Longrightarrow>
   (30 \<le> k \<Longrightarrow> \<not> lp_claimed p \<and> \<not> lp_expired p) \<Longrightarrow> lotteryInv (tbl(k \<mapsto> p))"
  unfolding lotteryInv_def by (simp (no_asm_simp)) blast

lemma auctionInv_upd:
  "auctionInv tbl \<Longrightarrow> ap_id p = k \<Longrightarrow> ap_day p = k \<Longrightarrow> \<not> (ap_claimed p \<and> ap_expired p) \<Longrightarrow>
   (30 \<le> k \<Longrightarrow> \<not> ap_claimed p \<and> \<not> ap_expired p) \<Longrightarrow> auctionInv (tbl(k \<mapsto> p))"
  unfolding auctionInv_def by (simp (no_asm_simp)) blast

lemma lotteryInv_sub:
  "lotteryInv tbl \<Longrightarrow> (\<And>k p. tbl' k = Some p \<Longrightarrow> tbl k = Some p) \<Longrightarrow> lotteryInv tbl'"
  unfolding lotteryInv_def by blast

lemma auctionInv_sub:
  "auctionInv tbl \<Longrightarrow> (\<And>k p. tbl' k = Some p \<Longrightarrow> tbl k = Some p) \<Longrightarrow> auctionInv tbl'"
  unfolding auctionInv_def by blast

lemma lotteryInv_D: "lotteryInv tbl \<Longrightarrow> tbl k = Some p \<Longrightarrow>
    lp_id p = k \<and> lp_day p = k \<and> \<not> (lp_claimed p \<and> lp_expired p) \<and>
      (30 \<le> k \<longrightarrow> \<not> lp_claimed p \<and> \<not> lp_expired p)"
  unfolding lotteryInv_def by blast

lemma auctionInv_D: "auctionInv tbl \<Longrightarrow> tbl k = Some p \<Longrightarrow>
    ap_id p = k \<and> ap_day p = k \<and> \<not> (ap_claimed p \<and> ap_expired p) \<and>
      (30 \<le> k \<longrightarrow> \<not> ap_claimed p \<and> \<not> ap_expired p)"
  unfolding auctionInv_def by blast

lemma rotateLotteryLoop_sub:
  "lotteryPrizeTbl (rotateLotteryLoop is k s) d = Some p \<Longrightarrow> lotteryPrizeTbl s d = Some p"
proof (induction "is" arbitrary: s)
  case Nil
  then show ?case by simp
next
  case (Cons i rest)
  show ?case
  proof (cases "k - int (i + 1) < 0")
    case True
    with Cons.prems show ?thesis by (simp add: Let_def)
  next
    case False
    show ?thesis
    proof (cases "lotteryPrizeTbl s (k - int (i + 1))")
      case None
      with False Cons.prems have "lotteryPrizeTbl (rotateLotteryLoop rest k s) d = Some p"
        by (simp add: Let_def)
      then show ?thesis by (rule Cons.IH)
    next
      case (Some q)
      with False Cons.prems
      have "lotteryPrizeTbl (rotateLotteryLoop rest k (remove_LotteryPrize (k - int (i + 1)) s)) d = Some p"
        by (simp add: Let_def)
      then have "lotteryPrizeTbl (remove_LotteryPrize (k - int (i + 1)) s) d = Some p"
        by (rule Cons.IH)
      then show ?thesis by (simp split: if_splits)
    qed
  qed
qed

lemma rotateAuctionLoop_sub:
  "auctionPrizeTbl (rotateAuctionLoop is k s) d = Some p \<Longrightarrow> auctionPrizeTbl s d = Some p"
proof (induction "is" arbitrary: s)
  case Nil
  then show ?case by simp
next
  case (Cons i rest)
  show ?case
  proof (cases "k - int (i + 1) < 0")
    case True
    with Cons.prems show ?thesis by (simp add: Let_def)
  next
    case False
    show ?thesis
    proof (cases "auctionPrizeTbl s (k - int (i + 1))")
      case None
      with False Cons.prems have "auctionPrizeTbl (rotateAuctionLoop rest k s) d = Some p"
        by (simp add: Let_def)
      then show ?thesis by (rule Cons.IH)
    next
      case (Some q)
      with False Cons.prems
      have "auctionPrizeTbl (rotateAuctionLoop rest k (remove_AuctionPrize (k - int (i + 1)) s)) d = Some p"
        by (simp add: Let_def)
      then have "auctionPrizeTbl (remove_AuctionPrize (k - int (i + 1)) s) d = Some p"
        by (rule Cons.IH)
      then show ?thesis by (simp split: if_splits)
    qed
  qed
qed

lemma rotateLotteryPrizes_sub:
  "lotteryPrizeTbl (rotateLotteryPrizes D s) d = Some p \<Longrightarrow> lotteryPrizeTbl s d = Some p"
  unfolding rotateLotteryPrizes_def by (rule rotateLotteryLoop_sub)

lemma rotateAuctionPrizes_sub:
  "auctionPrizeTbl (rotateAuctionPrizes D s) d = Some p \<Longrightarrow> auctionPrizeTbl s d = Some p"
  unfolding rotateAuctionPrizes_def by (rule rotateAuctionLoop_sub)

lemma handleLotteryWon_tbl:
  "lotteryPrizeTbl (handleLotteryWon ev D w a s) =
     (lotteryPrizeTbl (rotateLotteryPrizes D s))
       (D \<mapsto> \<lparr>lp_id = D, lp_day = D, lp_winner = w, lp_amount = a,
              lp_claimed = False, lp_expired = False,
              lp_timestamp = blockTimestamp ev, lp_blockNumber = blockNumber ev,
              lp_txHash = transactionHash ev,
              lp_user = (case userTbl s w of None \<Rightarrow> w | Some u \<Rightarrow> u_id u),
              lp_claimTimestamp = None, lp_claimTxHash = None,
              lp_expiryTimestamp = None, lp_expiryTxHash = None,
              lp_beneficiary = None\<rparr>)"
  by (simp add: handleLotteryWon_def Let_def split_def fst_getOrCreateUser_id)

lemma handleAuctionWon_tbl:
  "auctionPrizeTbl (handleAuctionWon ev D w a m s) =
     (auctionPrizeTbl (rotateAuctionPrizes D s))
       (D \<mapsto> \<lparr>ap_id = D, ap_day = D, ap_winner = w,
                   ap_stratAmount = a, ap_monPaid = m,
                   ap_claimed = False, ap_expired = False,
                   ap_timestamp = blockTimestamp ev, ap_blockNumber = blockNumber ev,
                   ap_txHash = transactionHash ev, ap_bidCount = 0,
                   ap_user = (case userTbl s w of None \<Rightarrow> w | Some u \<Rightarrow> u_id u),
                   ap_claimTimestamp = None, ap_claimTxHash = None,
                   ap_expiryTimestamp = None, ap_expiryTxHash = None,
                   ap_beneficiary = None\<rparr>)"
  by (simp add: handleAuctionWon_def Let_def split_def fst_getOrCreateUser_id)

lemma handleLotteryWon_inv:
  "lotteryInv (lotteryPrizeTbl s) \<Longrightarrow> lotteryInv (lotteryPrizeTbl (handleLotteryWon ev D w a s))"
  unfolding handleLotteryWon_tbl
  by (rule lotteryInv_upd, erule lotteryInv_sub, erule rotateLotteryPrizes_sub) simp_all

lemma handleAuctionWon_inv:
  "auctionInv (auctionPrizeTbl s) \<Longrightarrow> auctionInv (auctionPrizeTbl (handleAuctionWon ev D w a m s))"
  unfolding handleAuctionWon_tbl
  by (rule auctionInv_upd, erule auctionInv_sub, erule rotateAuctionPrizes_sub) simp_all

subsection \<open>The claim and expiry scans, one step at a time\<close>

lemma claimLotteryLoop_hit:
  assumes "lotteryPrizeTbl s (int i) = Some lottery"
    and "lp_winner lottery = w \<and> lp_amount lottery = a \<and> \<not> lp_claimed lottery \<and> \<not> lp_expired lottery"
  shows "fst (claimLotteryLoop (i # rest) ev w a s) = True"
    and "lotteryPrizeTbl (snd (claimLotteryLoop (i # rest) ev w a s)) =
      (lotteryPrizeTbl s)(lp_id lottery \<mapsto> lottery\<lparr>lp_claimed := True,
               lp_claimTimestamp := Some (blockTimestamp ev),
               lp_claimTxHash := Some (transactionHash ev)\<rparr>)"
  using assms by (simp_all add: Let_def split_def)

lemma claimLotteryLoop_miss:
  assumes "\<forall>lottery. lotteryPrizeTbl s (int i) = Some lottery \<longrightarrow>
     \<not> (lp_winner lottery = w \<and> lp_amount lottery = a \<and> \<not> lp_claimed lottery \<and> \<not> lp_expired lottery)"
  shows "claimLotteryLoop (i # rest) ev w a s = claimLotteryLoop rest ev w a s"
  using assms by (cases "lotteryPrizeTbl s (int i)") auto

lemma expireLotteryLoop_hit:
  assumes "lotteryPrizeTbl s (int i) = Some lottery"
    and "lp_winner lottery = w \<and> \<not> lp_claimed lottery \<and> \<not> lp_expired lottery"
  shows "fst (expireLotteryLoop (i # rest) ev w b s) = True"
    and "lotteryPrizeTbl (snd (expireLotteryLoop (i # rest) ev w b s)) =
      (lotteryPrizeTbl s)(lp_id lottery \<mapsto> lottery\<lparr>lp_expired := True,
               lp_expiryTimestamp := Some (blockTimestamp ev),
               lp_expiryTxHash := Some (transactionHash ev),
               lp_beneficiary := Some b\<rparr>)"
  using assms by (simp_all add: Let_def split_def)

lemma expireLotteryLoop_miss:
  assumes "\<forall>lottery. lotteryPrizeTbl s (int i) = Some lottery \<longrightarrow>
     \<not> (lp_winner lottery = w \<and> \<not> lp_claimed lottery \<and> \<not> lp_expired lottery)"
  shows "expireLotteryLoop (i # rest) ev w b s = expireLotteryLoop rest ev w b s"
  using assms by (cases "lotteryPrizeTbl s (int i)") auto

lemma claimAuctionLoop_hit:
  assumes "auctionPrizeTbl s (int i) = Some auction"
    and "ap_winner auction = w \<and> ap_stratAmount auction = a \<and> \<not> ap_claimed auction \<and> \<not> ap_expired auction"
  shows "auctionPrizeTbl (claimAuctionLoop (i # rest) ev w a s) =
      (auctionPrizeTbl s)(ap_id auction \<mapsto> auction\<lparr>ap_claimed := True,
               ap_claimTimestamp := Some (blockTimestamp ev),
               ap_claimTxHash := Some (transactionHash ev)\<rparr>)"
  using assms by (simp_all add: Let_def split_def)

lemma claimAuctionLoop_miss:
  assumes "\<forall>auction. auctionPrizeTbl s (int i) = Some auction \<longrightarrow>
     \<not> (ap_winner auction = w \<and> ap_stratAmount auction = a \<and> \<not> ap_claimed auction \<and> \<not> ap_expired auction)"
  shows "claimAuctionLoop (i # rest) ev w a s = claimAuctionLoop rest ev w a s"
  using assms by (cases "auctionPrizeTbl s (int i)") auto

lemma expireAuctionLoop_hit:
  assumes "auctionPrizeTbl s (int i) = Some auction"
    and "ap_winner auction = w \<and> \<not> ap_claimed auction \<and> \<not> ap_expired auction"
  shows "auctionPrizeTbl (expireAuctionLoop (i # rest) ev w b s) =
      (auctionPrizeTbl s)(ap_id auction \<mapsto> auction\<lparr>ap_expired := True,
               ap_expiryTimestamp := Some (blockTimestamp ev),
               ap_expiryTxHash := Some (transactionHash ev),
               ap_beneficiary := Some b\<rparr>)"
  using assms by (simp_all add: Let_def split_def)

lemma expireAuctionLoop_miss:
  assumes "\<forall>auction. auctionPrizeTbl s (int i) = Some auction \<longrightarrow>
     \<not> (ap_winner auction = w \<and> \<not> ap_claimed auction \<and> \<not> ap_expired auction)"
  shows "expireAuctionLoop (i # rest) ev w b s = expireAuctionLoop rest ev w b s"
  using assms by (cases "auctionPrizeTbl s (int i)") auto

lemma claimLotteryLoop_inv:
  "lotteryInv (lotteryPrizeTbl s) \<Longrightarrow> \<forall>i\<in>set is. i < 30 \<Longrightarrow>
   lotteryInv (lotteryPrizeTbl (snd (claimLotteryLoop is ev w a s)))"
proof (induction "is" arbitrary: s)
  case Nil
  then show ?case by simp
next
  case (Cons i rest)
  show ?case
  proof (cases "\<exists>lottery. lotteryPrizeTbl s (int i) = Some lottery \<and> (lp_winner lottery = w \<and> lp_amount lottery = a \<and> \<not> lp_claimed lottery \<and> \<not> lp_expired lottery)")
    case True
    then obtain lottery where l: "lotteryPrizeTbl s (int i) = Some lottery" and m: "lp_winner lottery = w \<and> lp_amount lottery = a \<and> \<not> lp_claimed lottery \<and> \<not> lp_expired lottery"
      by blast
    note inv = lotteryInv_D[OF Cons.prems(1) l]
    have "lotteryInv ((lotteryPrizeTbl s)(lp_id lottery \<mapsto> lottery\<lparr>lp_claimed := True, lp_claimTimestamp := Some (blockTimestamp ev), lp_claimTxHash := Some (transactionHash ev)\<rparr>))"
      using Cons.prems inv m by (intro lotteryInv_upd) simp_all
    then show ?thesis by (simp only: claimLotteryLoop_hit(2)[OF l m])
  next
    case False
    then have "claimLotteryLoop (i # rest) ev w a s = claimLotteryLoop rest ev w a s"
      by (intro claimLotteryLoop_miss) blast
    with Cons show ?thesis by simp
  qed
qed

lemma expireLotteryLoop_inv:
  "lotteryInv (lotteryPrizeTbl s) \<Longrightarrow> \<forall>i\<in>set is. i < 30 \<Longrightarrow>
   lotteryInv (lotteryPrizeTbl (snd (expireLotteryLoop is ev w b s)))"
proof (induction "is" arbitrary: s)
  case Nil
  then show ?case by simp
next
  case (Cons i rest)
  show ?case
  proof (cases "\<exists>lottery. lotteryPrizeTbl s (int i) = Some lottery \<and> (lp_winner lottery = w \<and> \<not> lp_claimed lottery \<and> \<not> lp_expired lottery)")
    case True
    then obtain lottery where l: "lotteryPrizeTbl s (int i) = Some lottery" and m: "lp_winner lottery = w \<and> \<not> lp_claimed lottery \<and> \<not> lp_expired lottery"
      by blast
    note inv = lotteryInv_D[OF Cons.prems(1) l]
    have "lotteryInv ((lotteryPrizeTbl s)(lp_id lottery \<mapsto> lottery\<lparr>lp_expired := True, lp_expiryTimestamp := Some (blockTimestamp ev), lp_expiryTxHash := Some (transactionHash ev), lp_beneficiary := Some b\<rparr>))"
      using Cons.prems inv m by (intro lotteryInv_upd) simp_all
    then show ?thesis by (simp only: expireLotteryLoop_hit(2)[OF l m])
  next
    case False
    then have "expireLotteryLoop (i # rest) ev w b s = expireLotteryLoop rest ev w b s"
      by (intro expireLotteryLoop_miss) blast
    with Cons show ?thesis by simp
  qed
qed

lemma claimAuctionLoop_inv:
  "auctionInv (auctionPrizeTbl s) \<Longrightarrow> \<forall>i\<in>set is. i < 30 \<Longrightarrow>
   auctionInv (auctionPrizeTbl (claimAuctionLoop is ev w a s))"
proof (induction "is" arbitrary: s)
  case Nil
  then show ?case by simp
next
  case (Cons i rest)
  show ?case
  proof (cases "\<exists>auction. auctionPrizeTbl s (int i) = Some auction \<and> (ap_winner auction = w \<and> ap_stratAmount auction = a \<and> \<not> ap_claimed auction \<and> \<not> ap_expired auction)")
    case True
    then obtain auction where l: "auctionPrizeTbl s (int i) = Some auction" and m: "ap_winner auction = w \<and> ap_stratAmount auction = a \<and> \<not> ap_claimed auction \<and> \<not> ap_expired auction"
      by blast
    note inv = auctionInv_D[OF Cons.prems(1) l]
    have "auctionInv ((auctionPrizeTbl s)(ap_id auction \<mapsto> auction\<lparr>ap_claimed := True, ap_claimTimestamp := Some (blockTimestamp ev), ap_claimTxHash := Some (transactionHash ev)\<rparr>))"
      using Cons.prems inv m by (intro auctionInv_upd) simp_all
    then show ?thesis by (simp only: claimAuctionLoop_hit[OF l m])
  next
    case False
    then have "claimAuctionLoop (i # rest) ev w a s = claimAuctionLoop rest ev w a s"
      by (intro claimAuctionLoop_miss) blast
    with Cons show ?thesis by simp
  qed
qed

lemma expireAuctionLoop_inv:
  "auctionInv (auctionPrizeTbl s) \<Longrightarrow> \<forall>i\<in>set is. i < 30 \<Longrightarrow>
   auctionInv (auctionPrizeTbl (expireAuctionLoop is ev w b s))"
proof (induction "is" arbitrary: s)
  case Nil
  then show ?case by simp
next
  case (Cons i rest)
  show ?case
  proof (cases "\<exists>auction. auctionPrizeTbl s (int i) = Some auction \<and> (ap_winner auction = w \<and> \<not> ap_claimed auction \<and> \<not> ap_expired auction)")
    case True
    then obtain auction where l: "auctionPrizeTbl s (int i) = Some auction" and m: "ap_winner auction = w \<and> \<not> ap_claimed auction \<and> \<not> ap_expired auction"
      by blast
    note inv = auctionInv_D[OF Cons.prems(1) l]
    have "auctionInv ((auctionPrizeTbl s)(ap_id auction \<mapsto> auction\<lparr>ap_expired := True, ap_expiryTimestamp := Some (blockTimestamp ev), ap_expiryTxHash := Some (transactionHash ev), ap_beneficiary := Some b\<rparr>))"
      using Cons.prems inv m by (intro auctionInv_upd) simp_all
    then show ?thesis by (simp only: expireAuctionLoop_hit[OF l m])
  next
    case False
    then have "expireAuctionLoop (i # rest) ev w b s = expireAuctionLoop rest ev w b s"
      by (intro expireAuctionLoop_miss) blast
    with Cons show ?thesis by simp
  qed
qed

subsection \<open>Every handler keeps the prize invariants\<close>

lemma handlePrizeClaimed_inv:
  assumes "lotteryInv (lotteryPrizeTbl s)" "auctionInv (auctionPrizeTbl s)"
  shows "lotteryInv (lotteryPrizeTbl (handlePrizeClaimed ev w a s))"
    "auctionInv (auctionPrizeTbl (handlePrizeClaimed ev w a s))"
proof -
  have b: "\<forall>i\<in>set [0..<30]. i < 30" by simp
  show "lotteryInv (lotteryPrizeTbl (handlePrizeClaimed ev w a s))"
    using claimLotteryLoop_inv[OF assms(1) b]
    by (simp add: handlePrizeClaimed_def Let_def split_def
          del: claimLotteryLoop.simps claimAuctionLoop.simps upt_rec_numeral)
  show "auctionInv (auctionPrizeTbl (handlePrizeClaimed ev w a s))"
    using claimAuctionLoop_inv[OF _ b, of "snd (claimLotteryLoop [0..<30] ev w a s)"] assms(2)
    by (simp add: handlePrizeClaimed_def Let_def split_def
          del: claimLotteryLoop.simps claimAuctionLoop.simps upt_rec_numeral)
qed

lemma handleBeneficiaryFunded_inv:
  assumes "lotteryInv (lotteryPrizeTbl s)" "auctionInv (auctionPrizeTbl s)"
  shows "lotteryInv (lotteryPrizeTbl (handleBeneficiaryFunded ev w b a s))"
    "auctionInv (auctionPrizeTbl (handleBeneficiaryFunded ev w b a s))"
proof -
  have b: "\<forall>i\<in>set [0..<30]. i < 30" by simp
  show "lotteryInv (lotteryPrizeTbl (handleBeneficiaryFunded ev w b a s))"
    using expireLotteryLoop_inv[OF assms(1) b]
    by (simp add: handleBeneficiaryFunded_def Let_def split_def
          del: expireLotteryLoop.simps expireAuctionLoop.simps upt_rec_numeral)
  show "auctionInv (auctionPrizeTbl (handleBeneficiaryFunded ev w b a s))"
    using expireAuctionLoop_inv[OF _ b, of "snd (expireLotteryLoop [0..<30] ev w b s)"] assms(2)
    by (simp add: handleBeneficiaryFunded_def Let_def split_def
          del: expireLotteryLoop.simps expireAuctionLoop.simps upt_rec_numeral)
qed

lemma handleAuctionStarted_inv:
  "auctionInv (auctionPrizeTbl s) \<Longrightarrow> auctionInv (auctionPrizeTbl (handleAuctionStarted ev D a s))"
  by (cases "auctionPrizeTbl s D") (simp_all add: handleAuctionStarted_def auctionInv_upd)

lemma handleBidPlaced_inv:
  assumes "auctionInv (auctionPrizeTbl s)"
  shows "auctionInv (auctionPrizeTbl (handleBidPlaced ev D b a s))"
proof (cases "auctionPrizeTbl s D")
  case None
  with assms show ?thesis by (simp add: handleBidPlaced_def Let_def)
next
  case (Some auction)
  note inv = auctionInv_D[OF assms Some]
  have "auctionInv ((auctionPrizeTbl s)(D \<mapsto> auction\<lparr>ap_bidCount := ap_bidCount auction + 1\<rparr>))"
    using assms inv by (intro auctionInv_upd) simp_all
  with Some inv show ?thesis by (simp add: handleBidPlaced_def Let_def)
qed

lemma handleMinted_prizes:
  "handleMinted ev a m st f s = Some s' \<Longrightarrow>
     lotteryPrizeTbl s' = lotteryPrizeTbl s \<and> auctionPrizeTbl s' = auctionPrizeTbl s"
  by (auto simp: handleMinted_def Let_def split_def rotateTransactions_frame split: option.splits)

lemma handleRedeemed_prizes:
  "handleRedeemed ev a m st f s = Some s' \<Longrightarrow>
     lotteryPrizeTbl s' = lotteryPrizeTbl s \<and> auctionPrizeTbl s' = auctionPrizeTbl s"
  by (auto simp: handleRedeemed_def Let_def split_def rotateTransactions_frame split: option.splits)

lemma handleTransfer_prizes:
  "handleTransfer ev a b v s = Some s' \<Longrightarrow>
     lotteryPrizeTbl s' = lotteryPrizeTbl s \<and> auctionPrizeTbl s' = auctionPrizeTbl s"
  by (auto simp: handleTransfer_def Let_def split_def rotateTransactions_frame split: option.splits if_splits)

lemma handleEvent_inv:
  assumes "handleEvent e s = Some s'" "lotteryInv (lotteryPrizeTbl s)" "auctionInv (auctionPrizeTbl s)"
  shows "lotteryInv (lotteryPrizeTbl s') \<and> auctionInv (auctionPrizeTbl s')"
  using assms
  by (cases e)
     (auto simp: handleLotteryWon_inv handleAuctionWon_inv handlePrizeClaimed_inv
        handleBeneficiaryFunded_inv handleAuctionStarted_inv handleBidPlaced_inv
        dest: handleMinted_prizes handleRedeemed_prizes handleTransfer_prizes)

lemma processEvents_inv:
  "processEvents evs s = Some s' \<Longrightarrow> lotteryInv (lotteryPrizeTbl s) \<Longrightarrow> auctionInv (auctionPrizeTbl s) \<Longrightarrow>
   lotteryInv (lotteryPrizeTbl s') \<and> auctionInv (auctionPrizeTbl s')"
proof (induction evs arbitrary: s)
  case Nil
  then show ?case by simp
next
  case (Cons e es)
  from Cons.prems(1) obtain s1 where s1: "handleEvent e s = Some s1" "processEvents es s1 = Some s'"
    by (auto split: option.splits)
  from handleEvent_inv[OF s1(1) Cons.prems(2,3)] Cons.IH[OF s1(2)] show ?case by blast
qed

lemma emptyStore_inv: "lotteryInv (lotteryPrizeTbl emptyStore)" "auctionInv (auctionPrizeTbl emptyStore)"
  by (simp_all add: emptyStore_def lotteryInv_def auctionInv_def)

subsection \<open>The sequence counter and termination of the probe\<close>

lemma handleRedeemed_Some:
  assumes "rotateTransactions s = Some s1"
  shows "\<exists>s'. handleRedeemed ev a m st f s = Some s' \<and>
           transactionTbl s' = (transactionTbl s1)(counterOf s \<mapsto> redeemedTx ev a m st f s) \<and>
           counterOf s' = counterOf s + 1 \<and>
           lotteryPrizeTbl s' = lotteryPrizeTbl s \<and> auctionPrizeTbl s' = auctionPrizeTbl s"
  using assms rotateTransactions_frame[OF assms]
  by (simp add: handleRedeemed_def Let_def split_def redeemedTx_def fst_getOrCreateUser_id)

lemma handleTransfer_Some:
  assumes "rotateTransactions s = Some s1" "to_addr = FEES_POOL_ADDRESS" "a \<noteq> ADDRESS_ZERO"
  shows "\<exists>s'. handleTransfer ev a to_addr v s = Some s' \<and>
           transactionTbl s' = (transactionTbl s1)(counterOf s \<mapsto> transferTx ev a v s) \<and>
           counterOf s' = counterOf s + 1 \<and>
           lotteryPrizeTbl s' = lotteryPrizeTbl s \<and> auctionPrizeTbl s' = auctionPrizeTbl s"
  using assms rotateTransactions_frame[OF assms(1)]
  by (simp add: handleTransfer_def Let_def split_def transferTx_def fst_getOrCreateUser_id)

lemma handleTransfer_ignored:
  "to_addr \<noteq> FEES_POOL_ADDRESS \<or> a = ADDRESS_ZERO \<Longrightarrow> handleTransfer ev a to_addr v s = Some s"
  by (auto simp: handleTransfer_def)

lemma txInv_fresh:
  assumes "txInv n s" "n < 2 ^ 32"
  shows "transactionTbl s (counterOf s) = None"
proof (cases "transactionTbl s (counterOf s)")
  case None
  then show ?thesis .
next
  case (Some tx)
  with assms(1) have "unat (of_nat n :: i32) < n" by (auto simp: txInv_def)
  moreover from assms(2) have "unat (of_nat n :: i32) = n" by (simp add: unat_of_nat)
  ultimately show ?thesis by simp
qed

lemma txInv_insert:
  assumes inv: "txInv n s" and n: "n < 2 ^ 32"
    and rot: "rotateTransactions s = Some s1"
    and tbl: "transactionTbl s' = (transactionTbl s1)(counterOf s \<mapsto> t)"
    and cnt: "counterOf s' = counterOf s + 1"
  shows "txInv (Suc n) s'"
proof -
  from inv have c: "counterOf s = of_nat n" by (simp add: txInv_def)
  from n have u: "unat (of_nat n :: i32) = n" by (simp add: unat_of_nat)
  have "unat k < Suc n" if "transactionTbl s' k = Some tx" for k tx
  proof (cases "k = counterOf s")
    case True
    with c u show ?thesis by simp
  next
    case False
    with that tbl have "transactionTbl s1 k = Some tx" by simp
    with rotateTransactions_tbl[OF rot, of k] have "transactionTbl s k = Some tx" by auto
    with inv show ?thesis by (auto simp: txInv_def)
  qed
  with cnt c show ?thesis by (simp add: txInv_def)
qed

lemma txInv_frame:
  "txInv n s \<Longrightarrow> transactionTbl s' = transactionTbl s \<Longrightarrow> counterOf s' = counterOf s \<Longrightarrow> txInv n s'"
  by (simp add: txInv_def)

lemma handleEvent_txInv:
  assumes inv: "txInv n s" and n: "n < 2 ^ 32"
  shows "\<exists>s' n'. handleEvent e s = Some s' \<and> txInv n' s' \<and> n' \<le> Suc n"
proof -
  from txInv_fresh[OF inv n] obtain s1 where rot: "rotateTransactions s = Some s1"
    using rotateTransactions_total by blast
  show ?thesis
  proof (cases e)
    case (LotteryWon ev day winner amount)
    with inv show ?thesis by (auto intro!: exI[of _ n] txInv_frame[OF inv])
  next
    case (AuctionWon ev day winner stratAmount monPaid)
    with inv show ?thesis by (auto intro!: exI[of _ n] txInv_frame[OF inv])
  next
    case (PrizeClaimed ev winner amount)
    with inv show ?thesis by (auto intro!: exI[of _ n] txInv_frame[OF inv])
  next
    case (BeneficiaryFunded ev previousWinner beneficiary amount)
    with inv show ?thesis by (auto intro!: exI[of _ n] txInv_frame[OF inv])
  next
    case (AuctionStarted ev day stratAmount)
    with inv show ?thesis by (auto intro!: exI[of _ n] txInv_frame[OF inv])
  next
    case (BidPlaced ev day bidder amount)
    with inv show ?thesis by (auto intro!: exI[of _ n] txInv_frame[OF inv])
  next
    case (Minted ev a m st f)
    from handleMinted_Some[OF rot, of ev a m st f] obtain s' where
      s': "handleMinted ev a m st f s = Some s'"
        "transactionTbl s' = (transactionTbl s1)(counterOf s \<mapsto> mintedTx ev a m st f s)"
        "counterOf s' = counterOf s + 1" by blast
    from txInv_insert[OF inv n rot s'(2,3)] s'(1) Minted show ?thesis by auto
  next
    case (Redeemed ev a m st f)
    from handleRedeemed_Some[OF rot, of ev a m st f] obtain s' where
      s': "handleRedeemed ev a m st f s = Some s'"
        "transactionTbl s' = (transactionTbl s1)(counterOf s \<mapsto> redeemedTx ev a m st f s)"
        "counterOf s' = counterOf s + 1" by blast
    from txInv_insert[OF inv n rot s'(2,3)] s'(1) Redeemed show ?thesis by auto
  next
    case (Transfer ev a b v)
    show ?thesis
    proof (cases "b = FEES_POOL_ADDRESS \<and> a \<noteq> ADDRESS_ZERO")
      case True
      from handleTransfer_Some[OF rot, of b a ev v] True obtain s' where
        s': "handleTransfer ev a b v s = Some s'"
          "transactionTbl s' = (transactionTbl s1)(counterOf s \<mapsto> transferTx ev a v s)"
          "counterOf s' = counterOf s + 1" by blast
      from txInv_insert[OF inv n rot s'(2,3)] s'(1) Transfer show ?thesis by auto
    next
      case False
      then have "handleTransfer ev a b v s = Some s" by (intro handleTransfer_ignored) blast
      with Transfer inv show ?thesis by (intro exI[of _ s] exI[of _ n]) simp
    qed
  qed
qed

lemma processEvents_txInv:
  "txInv n s \<Longrightarrow> n + length evs \<le> 2 ^ 32 \<Longrightarrow>
   \<exists>s' n'. processEvents evs s = Some s' \<and> txInv n' s' \<and> n' \<le> n + length evs"
proof (induction evs arbitrary: n s)
  case Nil
  then show ?case by auto
next
  case (Cons e es)
  from Cons.prems(2) have n: "n < 2 ^ 32" by simp
  from handleEvent_txInv[OF Cons.prems(1) n, of e] obtain s1 n1 where
    s1: "handleEvent e s = Some s1" "txInv n1 s1" "n1 \<le> Suc n" by blast
  from Cons.prems(2) s1(3) have "n1 + length es \<le> 2 ^ 32" by simp
  from Cons.IH[OF s1(2) this] obtain s' n' where
    "processEvents es s1 = Some s'" "txInv n' s'" "n' \<le> n1 + length es" by blast
  with s1 show ?case by (intro exI[of _ s'] exI[of _ n']) simp
qed

lemma emptyStore_txInv: "txInv 0 emptyStore"
  by (simp add: txInv_def emptyStore_def counterOf_def)

lemma processEvents_append:
  "processEvents (xs @ ys) s =
     (case processEvents xs s of None \<Rightarrow> None | Some s' \<Rightarrow> processEvents ys s')"
  by (induction xs arbitrary: s) (simp_all split: option.split)

lemma processEvents_returns:
  assumes "length evs < 2 ^ 32"
  shows "\<exists>s. processEvents evs emptyStore = Some s"
proof -
  from assms have "0 + length evs \<le> 2 ^ 32" by simp
  from processEvents_txInv[OF emptyStore_txInv this] show ?thesis by blast
qed

lemma reachable_counter_fresh:
  assumes "processEvents evs emptyStore = Some s" "length evs < 2 ^ 32"
  shows "transactionTbl s (counterOf s) = None"
proof -
  from assms(2) have "0 + length evs \<le> 2 ^ 32" by simp
  from processEvents_txInv[OF emptyStore_txInv this] assms(1)
  obtain n where "txInv n s" "n \<le> length evs" by auto
  with assms(2) show ?thesis by (intro txInv_fresh[of n]) simp_all
qed

lemma reachable_next_fresh:
  assumes "processEvents evs emptyStore = Some s" "length evs + 1 < 2 ^ 32"
  shows "transactionTbl s (counterOf s + 1) = None"
proof (cases "transactionTbl s (counterOf s + 1)")
  case None
  then show ?thesis .
next
  case (Some tx)
  from assms(2) have "0 + length evs \<le> 2 ^ 32" by simp
  from processEvents_txInv[OF emptyStore_txInv this] assms(1)
  obtain n where n: "txInv n s" "n \<le> length evs" by auto
  then have c: "counterOf s + 1 = (of_nat (Suc n) :: i32)" by (simp add: txInv_def)
  from n(2) assms(2) have "unat (of_nat (Suc n) :: i32) = Suc n"
    by (simp add: unat_of_nat del: of_nat_Suc)
  moreover from n(1) Some have "unat (counterOf s + 1) < n" unfolding txInv_def by blast
  ultimately show ?thesis unfolding c by simp
qed

subsection \<open>The lottery rotation window\<close>

lemma rotateLotteryLoop_tbl:
  "lotteryPrizeTbl (rotateLotteryLoop is k s) d =
     (if d \<in> (\<lambda>i. k - int (i + 1)) ` set (takeWhile (\<lambda>i. 0 \<le> k - int (i + 1)) is)
      then None else lotteryPrizeTbl s d)"
  by (induction "is" arbitrary: s) (auto simp: Let_def split: option.splits)

lemma takeWhile_upt_down:
  assumes "\<And>i j. i \<le> j \<Longrightarrow> P j \<Longrightarrow> P i"
  shows "set (takeWhile P [0..<n]) = {i. i < n \<and> P i}"
proof (induction n)
  case 0
  then show ?case by simp
next
  case (Suc n)
  show ?case
  proof (cases "\<forall>x\<in>set [0..<n]. P x")
    case True
    have "takeWhile P ([0..<n] @ [n]) = [0..<n] @ takeWhile P [n]"
      by (rule takeWhile_append2) (use True in blast)
    moreover from True have "\<And>i. i < n \<Longrightarrow> P i" by simp
    ultimately show ?thesis by (auto simp: less_Suc_eq)
  next
    case False
    then obtain x where x: "x \<in> set [0..<n]" "\<not> P x" by blast
    then have "\<not> P n" using assms[of x n] by auto
    moreover from x have "takeWhile P ([0..<n] @ [n]) = takeWhile P [0..<n]"
      by (rule takeWhile_append1)
    ultimately show ?thesis using Suc by (auto simp: less_Suc_eq)
  qed
qed

lemma rotateLotteryPrizes_tbl:
  "lotteryPrizeTbl (rotateLotteryPrizes D s) d =
     (if 0 \<le> d \<and> D - 106 \<le> d \<and> d \<le> D - 7 then None else lotteryPrizeTbl s d)"
proof -
  have set_eq: "set (takeWhile (\<lambda>i. 0 \<le> D - 6 - int (i + 1)) [0..<100]) = {i. i < 100 \<and> 0 \<le> D - 6 - int (i + 1)}"
    by (rule takeWhile_upt_down) simp
  have "(d \<in> (\<lambda>i. D - 6 - int (i + 1)) ` {i. i < 100 \<and> 0 \<le> D - 6 - int (i + 1)}) = (0 \<le> d \<and> D - 106 \<le> d \<and> d \<le> D - 7)"
  proof
    assume "d \<in> (\<lambda>i. D - 6 - int (i + 1)) ` {i. i < 100 \<and> 0 \<le> D - 6 - int (i + 1)}"
    then show "0 \<le> d \<and> D - 106 \<le> d \<and> d \<le> D - 7" by auto
  next
    assume a: "0 \<le> d \<and> D - 106 \<le> d \<and> d \<le> D - 7"
    then have "nat (D - 7 - d) < 100 \<and> 0 \<le> D - 6 - int (nat (D - 7 - d) + 1) \<and> d = D - 6 - int (nat (D - 7 - d) + 1)"
      by auto
    then show "d \<in> (\<lambda>i. D - 6 - int (i + 1)) ` {i. i < 100 \<and> 0 \<le> D - 6 - int (i + 1)}"
      by blast
  qed
  then show ?thesis
    unfolding rotateLotteryPrizes_def MAX_PRIZES_def rotateLotteryLoop_tbl using set_eq by simp
qed

lemma handleLotteryWon_keys:
  assumes "lotteryPrizeTbl (handleLotteryWon ev D w a s) k = Some p"
  shows "k = D \<or> (lotteryPrizeTbl s k = Some p \<and> \<not> (0 \<le> k \<and> D - 106 \<le> k \<and> k \<le> D - 7))"
  using assms unfolding handleLotteryWon_tbl
  by (auto simp: rotateLotteryPrizes_tbl split: if_splits)

lemma lottery_only_total:
  "list_all isLotteryWon evs \<Longrightarrow> \<exists>s'. processEvents evs s = Some s'"
proof (induction evs arbitrary: s)
  case Nil
  then show ?case by simp
next
  case (Cons e es)
  then show ?case by (cases e) simp_all
qed

lemma lottery_window_run:
  assumes "list_all isLotteryWon evs" "evs \<noteq> []"
    and "sorted_wrt (<) (L # map lotteryDay evs)" "gapsWithin 100 (L # map lotteryDay evs)"
    and "- 1 \<le> L"
    and "\<forall>k p. lotteryPrizeTbl s k = Some p \<longrightarrow> 0 \<le> k \<and> L - 6 \<le> k"
    and "processEvents evs s = Some s'"
  shows "\<forall>k p. lotteryPrizeTbl s' k = Some p \<longrightarrow> 0 \<le> k \<and> lotteryDay (last evs) - 6 \<le> k"
  using assms
proof (induction evs arbitrary: s L)
  case Nil
  then show ?case by simp
next
  case (Cons e es)
  from Cons.prems(1) obtain ev D w a where e: "e = LotteryWon ev D w a" by (cases e) simp_all
  define s1 where "s1 = handleLotteryWon ev D w a s"
  from Cons.prems(7) e have run: "processEvents es s1 = Some s'" by (simp add: s1_def)
  from Cons.prems(3) e have LD: "L < D" by simp
  from Cons.prems(4) e have gap: "D - L \<le> 100" by (cases es) simp_all
  have inv1: "\<forall>k p. lotteryPrizeTbl s1 k = Some p \<longrightarrow> 0 \<le> k \<and> D - 6 \<le> k"
  proof (intro allI impI)
    fix k p assume "lotteryPrizeTbl s1 k = Some p"
    from handleLotteryWon_keys[OF this[unfolded s1_def]] Cons.prems(5,6) LD gap
    show "0 \<le> k \<and> D - 6 \<le> k" by force
  qed
  show ?case
  proof (cases es)
    case Nil
    with run inv1 e show ?thesis by simp
  next
    case (Cons e' es')
    have "\<forall>k p. lotteryPrizeTbl s' k = Some p \<longrightarrow> 0 \<le> k \<and> lotteryDay (last es) - 6 \<le> k"
    proof (rule Cons.IH[of D s1])
      show "list_all isLotteryWon es" using Cons.prems(1) by simp
      show "es \<noteq> []" using Cons by simp
      show "sorted_wrt (<) (D # map lotteryDay es)" using Cons.prems(3) e by simp
      show "gapsWithin 100 (D # map lotteryDay es)" using Cons.prems(4) e Cons by simp
      show "- 1 \<le> D" using LD Cons.prems(5) by simp
      show "\<forall>k p. lotteryPrizeTbl s1 k = Some p \<longrightarrow> 0 \<le> k \<and> D - 6 \<le> k" by (rule inv1)
      show "processEvents es s1 = Some s'" by (rule run)
    qed
    with Cons show ?thesis by simp
  qed
qed

subsection \<open>Unfolding sets for the evaluation of concrete logs\<close>

lemmas eval_defs = handleMinted_def handleRedeemed_def handleTransfer_def
  rotateTransactions_def probeTransactions.simps emptyStore_def
  LotteryPrize_save_def AuctionPrize_save_def Transaction_save_def User_save_def
  ProtocolStats_save_def Bid_save_def remove_Transaction_def remove_LotteryPrize_def
  remove_AuctionPrize_def getOrCreateUser_def getOrCreateProtocolStats_def
  MAX_TRANSACTIONS_def MAX_PRIZES_def Let_def

lemmas scan_defs = handlePrizeClaimed_def handleBeneficiaryFunded_def handleLotteryWon_def
  rotateLotteryPrizes_def upt_conv_Cons metaAt_def lotteryAt_def

subsection \<open>Scans that find nothing\<close>

lemma claimLotteryLoop_skip:
  assumes "\<forall>i\<in>set xs. \<forall>lottery. lotteryPrizeTbl s (int i) = Some lottery \<longrightarrow>
     \<not> (lp_winner lottery = w \<and> lp_amount lottery = a \<and> \<not> lp_claimed lottery \<and> \<not> lp_expired lottery)"
  shows "claimLotteryLoop (xs @ ys) ev w a s = claimLotteryLoop ys ev w a s"
  using assms
proof (induction xs)
  case Nil
  then show ?case by simp
next
  case (Cons i xs)
  then have "claimLotteryLoop (i # (xs @ ys)) ev w a s = claimLotteryLoop (xs @ ys) ev w a s"
    by (intro claimLotteryLoop_miss) simp
  with Cons show ?case by simp
qed

lemma claimLotteryLoop_none:
  assumes "\<forall>i\<in>set xs. \<forall>lottery. lotteryPrizeTbl s (int i) = Some lottery \<longrightarrow>
     \<not> (lp_winner lottery = w \<and> lp_amount lottery = a \<and> \<not> lp_claimed lottery \<and> \<not> lp_expired lottery)"
  shows "claimLotteryLoop xs ev w a s = (False, s)"
  using claimLotteryLoop_skip[OF assms, of "[]"] by simp

lemma claimAuctionLoop_none:
  assumes "\<forall>i\<in>set xs. \<forall>auction. auctionPrizeTbl s (int i) = Some auction \<longrightarrow>
     \<not> (ap_winner auction = w \<and> ap_stratAmount auction = a \<and> \<not> ap_claimed auction \<and> \<not> ap_expired auction)"
  shows "claimAuctionLoop xs ev w a s = s"
  using assms
proof (induction xs)
  case Nil
  then show ?case by simp
next
  case (Cons i xs)
  then have "claimAuctionLoop (i # xs) ev w a s = claimAuctionLoop xs ev w a s"
    by (intro claimAuctionLoop_miss) simp
  with Cons show ?case by simp
qed

lemma claimLotteryLoop_hit_stats:
  assumes "lotteryPrizeTbl s (int i) = Some lottery"
    and "lp_winner lottery = w \<and> lp_amount lottery = a \<and> \<not> lp_claimed lottery \<and> \<not> lp_expired lottery"
  shows "totalLotteryClaimedOf (snd (claimLotteryLoop (i # rest) ev w a s)) = totalLotteryClaimedOf s + a"
    and "auctionPrizeTbl (snd (claimLotteryLoop (i # rest) ev w a s)) = auctionPrizeTbl s"
  using assms
  by (simp_all add: Let_def split_def totalLotteryClaimedOf_def getOrCreateProtocolStats_def
        ProtocolStats_save_def LotteryPrize_save_def split: option.split)

lemma upt_30_split: "[0..<30] = [0..<5] @ 5 # [6..<30]"
proof -
  have "[0..<5 + 25] = [0..<5] @ [5..<5 + 25]" by (rule upt_add_eq_append) simp
  moreover have "[5..<30] = 5 # [Suc 5..<30]" by (rule upt_conv_Cons) simp
  ultimately show ?thesis by simp
qed

subsection \<open>Scans that find nothing to expire, and keys outside the scanned window\<close>












section \<open>The claims\<close>

subsection \<open>C1: the cap of ten transactions\<close>

text \<open>
  Claim C1 says that after every Minted, Redeemed or Transfer event at most 10 Transaction
  records are live and that ten live records are the ten newest. The rotation probes the
  keys \<open>0, 1, 2, \<dots>\<close> from 0 on every call, so once it has removed key 0 the probe stops
  at once, collects nothing and removes nothing any more (lemma \<open>rotateTransactions_noop\<close>).
  Evaluated on mints with the timestamps 1, 2, \<open>\<dots>\<close> from the empty store: the eleventh mint
  removes key 0 and leaves ten records; the twelfth finds key 0 missing, and eleven records
  (keys 1 to 11) are live.
\<close>

theorem twelve_mints_leave_eleven_transactions:
  "liveTransactions
     (processEvents (map mintAt [1, 2, 3, 4, 5, 6, 7, 8, 9, 10, 11]) emptyStore) = Some 10 \<and>
   liveTransactions
     (processEvents (map mintAt [1, 2, 3, 4, 5, 6, 7, 8, 9, 10, 11, 12]) emptyStore) = Some 11"
proof -
  have "map_option (\<lambda>s. dom (transactionTbl s))
          (processEvents (map mintAt [1, 2, 3, 4, 5, 6, 7, 8, 9, 10, 11]) emptyStore)
        = Some {10, 9, 8, 7, 6, 5, 4, 3, 2, 1}"
    by (simp add: mintAt_def metaAt_def eval_defs)
  then obtain s where
    "processEvents (map mintAt [1, 2, 3, 4, 5, 6, 7, 8, 9, 10, 11]) emptyStore = Some s"
    "dom (transactionTbl s) = {10, 9, 8, 7, 6, 5, 4, 3, 2, 1}"
    by blast
  then have eleven: "liveTransactions
     (processEvents (map mintAt [1, 2, 3, 4, 5, 6, 7, 8, 9, 10, 11]) emptyStore) = Some 10"
    by (simp add: liveTransactions_def)
  have "map_option (\<lambda>s. dom (transactionTbl s))
          (processEvents (map mintAt [1, 2, 3, 4, 5, 6, 7, 8, 9, 10, 11, 12]) emptyStore)
        = Some {11, 10, 9, 8, 7, 6, 5, 4, 3, 2, 1}"
    by (simp add: mintAt_def metaAt_def eval_defs)
  then obtain s' where
    "processEvents (map mintAt [1, 2, 3, 4, 5, 6, 7, 8, 9, 10, 11, 12]) emptyStore = Some s'"
    "dom (transactionTbl s') = {11, 10, 9, 8, 7, 6, 5, 4, 3, 2, 1}"
    by blast
  then have twelve: "liveTransactions
     (processEvents (map mintAt [1, 2, 3, 4, 5, 6, 7, 8, 9, 10, 11, 12]) emptyStore) = Some 11"
    by (simp add: liveTransactions_def)
  from eleven twelve show ?thesis by (rule conjI)
qed

subsection \<open>C2: lottery prizes older than the window\<close>

text \<open>
  Claim C2, as amended. For every non-empty log of LotteryWon events with strictly
  increasing days, the projection from the empty store returns a store in which every
  lottery record sits under its own day and, \<open>D\<close> being the day of the last event, no
  record exists for a day \<open>d\<close> with \<open>0 \<le> d\<close> and \<open>D - 106 \<le> d \<le> D - 7\<close>: the rotation
  computes \<open>keepFrom = D - 6\<close> and scans the 100 days below it. When moreover the first day
  is not negative and consecutive days are at most 100 apart, no record exists for any day
  \<open>d \<le> D - 7\<close>.
\<close>

theorem lottery_rotation_window:
  assumes won: "list_all isLotteryWon evs" and ne: "evs \<noteq> []"
    and inc: "sorted_wrt (<) (map lotteryDay evs)"
  shows "\<exists>s. processEvents evs emptyStore = Some s \<and>
           (\<forall>k p. lotteryPrizeTbl s k = Some p \<longrightarrow> lp_day p = k) \<and>
           (\<forall>d. 0 \<le> d \<and> lotteryDay (last evs) - 106 \<le> d \<and> d \<le> lotteryDay (last evs) - 7 \<longrightarrow>
                lotteryPrizeTbl s d = None) \<and>
           (0 \<le> lotteryDay (hd evs) \<and> gapsWithin 100 (map lotteryDay evs) \<longrightarrow>
              (\<forall>d. d \<le> lotteryDay (last evs) - 7 \<longrightarrow> lotteryPrizeTbl s d = None))"
proof -
  from lottery_only_total[OF won] obtain s where s: "processEvents evs emptyStore = Some s" by blast
  from processEvents_inv[OF s emptyStore_inv] have linv: "lotteryInv (lotteryPrizeTbl s)" by blast
  have day: "\<forall>k p. lotteryPrizeTbl s k = Some p \<longrightarrow> lp_day p = k"
    using lotteryInv_D[OF linv] by blast
  from ne have split: "evs = butlast evs @ [last evs]" by simp
  from won ne have "isLotteryWon (last evs)" by (metis last_in_set list_all_iff)
  then obtain ev D w a where e: "last evs = LotteryWon ev D w a" by (cases "last evs") simp_all
  from s obtain c where c: "processEvents (butlast evs) emptyStore = Some c"
    and sc: "s = handleLotteryWon ev D w a c"
    by (subst (asm) split) (auto simp: processEvents_append e split: option.splits)
  have window: "\<forall>d. 0 \<le> d \<and> lotteryDay (last evs) - 106 \<le> d \<and> d \<le> lotteryDay (last evs) - 7 \<longrightarrow>
                lotteryPrizeTbl s d = None"
  proof (intro allI impI)
    fix d assume d: "0 \<le> d \<and> lotteryDay (last evs) - 106 \<le> d \<and> d \<le> lotteryDay (last evs) - 7"
    show "lotteryPrizeTbl s d = None"
    proof (cases "lotteryPrizeTbl s d")
      case None
      then show ?thesis .
    next
      case (Some p)
      from handleLotteryWon_keys[OF Some[unfolded sc]] d e show ?thesis by simp
    qed
  qed
  have all: "\<forall>d. d \<le> lotteryDay (last evs) - 7 \<longrightarrow> lotteryPrizeTbl s d = None"
    if h: "0 \<le> lotteryDay (hd evs) \<and> gapsWithin 100 (map lotteryDay evs)"
  proof -
    from ne obtain e0 es where evs: "evs = e0 # es" by (cases evs) auto
    have "\<forall>k p. lotteryPrizeTbl s k = Some p \<longrightarrow> 0 \<le> k \<and> lotteryDay (last evs) - 6 \<le> k"
    proof (rule lottery_window_run[OF won ne _ _ _ _ s, of "lotteryDay (hd evs) - 1"])
      show "sorted_wrt (<) ((lotteryDay (hd evs) - 1) # map lotteryDay evs)"
        using inc evs by auto
      show "gapsWithin 100 ((lotteryDay (hd evs) - 1) # map lotteryDay evs)"
        using h evs by simp
      show "- 1 \<le> lotteryDay (hd evs) - 1" using h by simp
      show "\<forall>k p. lotteryPrizeTbl emptyStore k = Some p \<longrightarrow> 0 \<le> k \<and> lotteryDay (hd evs) - 1 - 6 \<le> k"
        by (simp add: emptyStore_def)
    qed
    then have low: "\<And>k p. lotteryPrizeTbl s k = Some p \<Longrightarrow> lotteryDay (last evs) - 6 \<le> k"
      by blast
    show ?thesis
    proof (intro allI impI)
      fix d assume d: "d \<le> lotteryDay (last evs) - 7"
      show "lotteryPrizeTbl s d = None"
      proof (cases "lotteryPrizeTbl s d")
        case None
        then show ?thesis .
      next
        case (Some p)
        from low[OF Some] d show ?thesis by simp
      qed
    qed
  qed
  from s day window all show ?thesis by blast
qed

text \<open>
  The claim as stated, without the bound on the gaps, fails: after the wins of day 0 and
  day 107 the scan for day 107 covers the days 100 down to 1, and the record of day 0,
  which is \<open>\<le> 107 - 7\<close>, is still there.
\<close>

theorem lottery_rotation_counterexample:
  "lotteryPrizeLive (processEvents [lotteryAt 0, lotteryAt 107] emptyStore) 0 \<and> (0::int) \<le> 107 - 7"
  by (simp add: lotteryPrizeLive_def lotteryAt_def handleLotteryWon_tbl rotateLotteryPrizes_tbl)

text \<open>
  The theorem at the log of the days 0, 3 and 10: after day 10 the records of day 0 and of
  day 3 are gone.
\<close>

theorem lottery_rotation_window_witness:
  "\<exists>s. processEvents [lotteryAt 0, lotteryAt 3, lotteryAt 10] emptyStore = Some s \<and>
       lotteryPrizeTbl s 0 = None \<and> lotteryPrizeTbl s 3 = None \<and> lotteryPrizeTbl s (- 2) = None"
proof -
  let ?evs = "[lotteryAt 0, lotteryAt 3, lotteryAt 10]"
  have h1: "list_all isLotteryWon ?evs" by (simp add: lotteryAt_def)
  have h2: "?evs \<noteq> []" by simp
  have h3: "sorted_wrt (<) (map lotteryDay ?evs)" by (simp add: lotteryAt_def)
  have h4: "0 \<le> lotteryDay (hd ?evs) \<and> gapsWithin 100 (map lotteryDay ?evs)"
    by (simp add: lotteryAt_def)
  have l: "lotteryDay (last ?evs) = 10" by (simp add: lotteryAt_def)
  from lottery_rotation_window[OF h1 h2 h3] obtain s where
    s: "processEvents ?evs emptyStore = Some s"
    and w: "\<forall>d. 0 \<le> d \<and> lotteryDay (last ?evs) - 106 \<le> d \<and> d \<le> lotteryDay (last ?evs) - 7 \<longrightarrow>
                lotteryPrizeTbl s d = None"
    and g: "0 \<le> lotteryDay (hd ?evs) \<and> gapsWithin 100 (map lotteryDay ?evs) \<longrightarrow>
              (\<forall>d. d \<le> lotteryDay (last ?evs) - 7 \<longrightarrow> lotteryPrizeTbl s d = None)"
    by blast
  from w l have "lotteryPrizeTbl s 0 = None" "lotteryPrizeTbl s 3 = None" by simp_all
  moreover from g h4 l have "lotteryPrizeTbl s (- 2) = None" by simp
  ultimately show ?thesis using s by blast
qed

subsection \<open>C4: the bid count across the win\<close>

text \<open>
  Claim C4 says that after AuctionStarted, \<open>n\<close> BidPlaced events and AuctionWon for one day
  the record's bid count is \<open>n\<close>. \<open>handleAuctionWon\<close> builds a new record with
  \<open>bidCount = 0\<close> and saves it over the one the bids were counted on. Evaluated from the
  empty store for day 3 with two bids: the count is 2 before the win and 0 after it.
\<close>

theorem auction_win_resets_bid_count:
  "bidCountOn 3 (processEvents [AuctionStarted (metaAt 1) 3 100, BidPlaced (metaAt 2) 3 7 10,
      BidPlaced (metaAt 3) 3 8 20] emptyStore) = Some 2 \<and>
   bidCountOn 3 (processEvents [AuctionStarted (metaAt 1) 3 100, BidPlaced (metaAt 2) 3 7 10,
      BidPlaced (metaAt 3) 3 8 20, AuctionWon (metaAt 4) 3 8 100 20] emptyStore) = Some 0"
  by (simp add: bidCountOn_def metaAt_def handleAuctionStarted_def handleBidPlaced_def
        handleAuctionWon_tbl emptyStore_def Let_def)

subsection \<open>C5: a claim marks the prize once\<close>

text \<open>
  Claim C5, as amended. Let the lottery record of day 5 in store \<open>s\<close> still be the one that
  LotteryWon for day 5, winner \<open>W\<close> and amount \<open>A\<close> wrote (not rotated away, not overwritten,
  neither claimed nor expired since), and let no other lottery record and no auction
  record of \<open>s\<close> be an unclaimed, unexpired prize of \<open>W\<close> with amount \<open>A\<close>. Then
  PrizeClaimed for \<open>W\<close> and \<open>A\<close> sets the record's claimed flag, stamps the claim timestamp
  and transaction hash with those of the event, leaves it unexpired, and raises
  \<open>totalLotteryClaimed\<close> by exactly \<open>A\<close>; a second PrizeClaimed for \<open>W\<close> and \<open>A\<close> leaves the
  whole store unchanged.
\<close>

theorem prize_claim_then_noop:
  assumes won: "lotteryPrizeTbl s 5 = lotteryPrizeTbl (handleLotteryWon ev0 5 W A s0) 5"
    and other_lottery: "\<forall>k q. k \<noteq> 5 \<and> lotteryPrizeTbl s k = Some q \<longrightarrow>
          \<not> (lp_winner q = W \<and> lp_amount q = A \<and> \<not> lp_claimed q \<and> \<not> lp_expired q)"
    and other_auction: "\<forall>k q. auctionPrizeTbl s k = Some q \<longrightarrow>
          \<not> (ap_winner q = W \<and> ap_stratAmount q = A \<and> \<not> ap_claimed q \<and> \<not> ap_expired q)"
  shows "\<exists>p. lotteryPrizeTbl (handlePrizeClaimed ev W A s) 5 = Some p \<and>
           lp_day p = 5 \<and> lp_winner p = W \<and> lp_amount p = A \<and>
           lp_claimed p \<and> \<not> lp_expired p \<and>
           lp_claimTimestamp p = Some (blockTimestamp ev) \<and>
           lp_claimTxHash p = Some (transactionHash ev) \<and>
           totalLotteryClaimedOf (handlePrizeClaimed ev W A s) = totalLotteryClaimedOf s + A \<and>
           handlePrizeClaimed ev' W A (handlePrizeClaimed ev W A s) = handlePrizeClaimed ev W A s"
proof -
  define p0 where "p0 = \<lparr>lp_id = 5, lp_day = 5, lp_winner = W, lp_amount = A,
              lp_claimed = False, lp_expired = False,
              lp_timestamp = blockTimestamp ev0, lp_blockNumber = blockNumber ev0,
              lp_txHash = transactionHash ev0,
              lp_user = (case userTbl s0 W of None \<Rightarrow> W | Some u \<Rightarrow> u_id u),
              lp_claimTimestamp = None, lp_claimTxHash = None,
              lp_expiryTimestamp = None, lp_expiryTxHash = None,
              lp_beneficiary = None\<rparr>"
  define p1 where "p1 = p0\<lparr>lp_claimed := True, lp_claimTimestamp := Some (blockTimestamp ev),
               lp_claimTxHash := Some (transactionHash ev)\<rparr>"
  have l5: "lotteryPrizeTbl s (int 5) = Some p0"
    using won by (simp add: handleLotteryWon_tbl p0_def)
  have m5: "lp_winner p0 = W \<and> lp_amount p0 = A \<and> \<not> lp_claimed p0 \<and> \<not> lp_expired p0"
    by (simp add: p0_def)
  have before: "\<forall>i\<in>set [0..<5]. \<forall>lottery. lotteryPrizeTbl s (int i) = Some lottery \<longrightarrow>
     \<not> (lp_winner lottery = W \<and> lp_amount lottery = A \<and> \<not> lp_claimed lottery \<and> \<not> lp_expired lottery)"
  proof (intro ballI allI impI)
    fix i lottery assume i: "i \<in> set [0..<5]" and l: "lotteryPrizeTbl s (int i) = Some lottery"
    from i have "int i \<noteq> 5" by simp
    with l other_lottery
    show "\<not> (lp_winner lottery = W \<and> lp_amount lottery = A \<and> \<not> lp_claimed lottery \<and> \<not> lp_expired lottery)"
      by blast
  qed
  define s1 where "s1 = snd (claimLotteryLoop (5 # [6..<30]) ev W A s)"
  have loop: "claimLotteryLoop [0..<30] ev W A s = claimLotteryLoop (5 # [6..<30]) ev W A s"
    unfolding upt_30_split by (rule claimLotteryLoop_skip[OF before])
  have found: "fst (claimLotteryLoop (5 # [6..<30]) ev W A s) = True"
    by (rule claimLotteryLoop_hit(1)[OF l5 m5])
  have first: "handlePrizeClaimed ev W A s = s1"
    unfolding handlePrizeClaimed_def loop s1_def using found by (simp add: split_def)
  have tbl1: "lotteryPrizeTbl s1 = (lotteryPrizeTbl s)(5 \<mapsto> p1)"
    unfolding s1_def claimLotteryLoop_hit(2)[OF l5 m5] by (simp add: p0_def p1_def)
  have total1: "totalLotteryClaimedOf s1 = totalLotteryClaimedOf s + A"
    unfolding s1_def by (rule claimLotteryLoop_hit_stats(1)[OF l5 m5])
  have auc1: "auctionPrizeTbl s1 = auctionPrizeTbl s"
    unfolding s1_def by (rule claimLotteryLoop_hit_stats(2)[OF l5 m5])
  have no_lottery: "\<forall>i\<in>set [0..<30]. \<forall>lottery. lotteryPrizeTbl s1 (int i) = Some lottery \<longrightarrow>
     \<not> (lp_winner lottery = W \<and> lp_amount lottery = A \<and> \<not> lp_claimed lottery \<and> \<not> lp_expired lottery)"
  proof (intro ballI allI impI)
    fix i lottery assume l: "lotteryPrizeTbl s1 (int i) = Some lottery"
    show "\<not> (lp_winner lottery = W \<and> lp_amount lottery = A \<and> \<not> lp_claimed lottery \<and> \<not> lp_expired lottery)"
    proof (cases "int i = 5")
      case True
      with l have "lottery = p1" by (simp add: tbl1)
      then show ?thesis by (simp add: p1_def)
    next
      case False
      with l have "lotteryPrizeTbl s (int i) = Some lottery" by (simp add: tbl1)
      with False other_lottery show ?thesis by blast
    qed
  qed
  have no_auction: "\<forall>i\<in>set [0..<30]. \<forall>auction. auctionPrizeTbl s1 (int i) = Some auction \<longrightarrow>
     \<not> (ap_winner auction = W \<and> ap_stratAmount auction = A \<and> \<not> ap_claimed auction \<and> \<not> ap_expired auction)"
    using other_auction by (simp add: auc1)
  have second: "handlePrizeClaimed ev' W A s1 = s1"
    unfolding handlePrizeClaimed_def claimLotteryLoop_none[OF no_lottery]
    using claimAuctionLoop_none[OF no_auction] by simp
  have "lotteryPrizeTbl s1 5 = Some p1" by (simp add: tbl1)
  then show ?thesis
    unfolding first using total1 second
    by (intro exI[of _ p1]) (simp add: p1_def p0_def)
qed

text \<open>
  Without the condition on the day-5 record the claim fails, in two ways. After the win of
  day 5 (winner 7, amount 100) a win of day 12 for another winner rotates the day-5 record
  away: the claim for winner 7 and amount 100 finds nothing, no record of day 5 exists and
  the total is unchanged. After the same win an expiry for winner 7 marks the record
  expired: the claim skips it, the claimed flag stays false and the total is unchanged.
\<close>

theorem prize_claim_counterexample:
  "lotteryPrizeTbl (handleLotteryWon (metaAt 1) 5 7 100 emptyStore) 5 \<noteq> None \<and>
   map_option lp_winner (lotteryPrizeTbl rotatedScenario 12) = Some 8 \<and>
   lotteryPrizeTbl (handlePrizeClaimed (metaAt 3) 7 100 rotatedScenario) 5 = None \<and>
   totalLotteryClaimedOf (handlePrizeClaimed (metaAt 3) 7 100 rotatedScenario) =
     totalLotteryClaimedOf rotatedScenario \<and>
   map_option lp_expired (lotteryPrizeTbl expiredScenario 5) = Some True \<and>
   map_option lp_claimed (lotteryPrizeTbl (handlePrizeClaimed (metaAt 3) 7 100 expiredScenario) 5) =
     Some False \<and>
   totalLotteryClaimedOf (handlePrizeClaimed (metaAt 3) 7 100 expiredScenario) =
     totalLotteryClaimedOf expiredScenario"
proof -
  have a: "lotteryPrizeTbl (handleLotteryWon (metaAt 1) 5 7 100 emptyStore) 5 \<noteq> None"
    by (simp add: handleLotteryWon_tbl)
  have b: "map_option lp_winner (lotteryPrizeTbl rotatedScenario 12) = Some 8"
    by (simp add: rotatedScenario_def handleLotteryWon_tbl)
  have c: "lotteryPrizeTbl (handlePrizeClaimed (metaAt 3) 7 100 rotatedScenario) 5 = None"
    by (simp add: rotatedScenario_def scan_defs eval_defs)
  have d: "totalLotteryClaimedOf (handlePrizeClaimed (metaAt 3) 7 100 rotatedScenario) =
     totalLotteryClaimedOf rotatedScenario"
    by (simp add: rotatedScenario_def totalLotteryClaimedOf_def scan_defs eval_defs)
  have e: "map_option lp_expired (lotteryPrizeTbl expiredScenario 5) = Some True"
    by (simp add: expiredScenario_def scan_defs eval_defs)
  have f: "map_option lp_claimed (lotteryPrizeTbl (handlePrizeClaimed (metaAt 3) 7 100 expiredScenario) 5) =
     Some False"
    by (simp add: expiredScenario_def scan_defs eval_defs)
  have g: "totalLotteryClaimedOf (handlePrizeClaimed (metaAt 3) 7 100 expiredScenario) =
     totalLotteryClaimedOf expiredScenario"
    by (simp add: expiredScenario_def totalLotteryClaimedOf_def scan_defs eval_defs)
  from a b c d e f g show ?thesis by (intro conjI)
qed

text \<open>
  The theorem at the store reached by the win of day 5 (winner 7, amount 100) followed by
  a win of day 6 for another winner.
\<close>

theorem prize_claim_then_noop_witness:
  "\<exists>p. lotteryPrizeTbl (handlePrizeClaimed (metaAt 3) 7 100 claimScenario) 5 = Some p \<and>
       lp_claimed p \<and> lp_claimTimestamp p = Some 3 \<and>
       totalLotteryClaimedOf (handlePrizeClaimed (metaAt 3) 7 100 claimScenario) =
         totalLotteryClaimedOf claimScenario + 100 \<and>
       handlePrizeClaimed (metaAt 4) 7 100 (handlePrizeClaimed (metaAt 3) 7 100 claimScenario) =
         handlePrizeClaimed (metaAt 3) 7 100 claimScenario"
proof -
  have won: "lotteryPrizeTbl claimScenario 5 =
      lotteryPrizeTbl (handleLotteryWon (metaAt 1) 5 7 100 emptyStore) 5"
    by (simp add: claimScenario_def handleLotteryWon_tbl rotateLotteryPrizes_tbl emptyStore_def)
  have keys: "k = 5 \<or> lp_winner q = 8" if "lotteryPrizeTbl claimScenario k = Some q" for k q
    using that
    by (auto simp: claimScenario_def handleLotteryWon_tbl rotateLotteryPrizes_tbl emptyStore_def
          split: if_splits)
  have other_lottery: "\<forall>k q. k \<noteq> 5 \<and> lotteryPrizeTbl claimScenario k = Some q \<longrightarrow>
          \<not> (lp_winner q = 7 \<and> lp_amount q = 100 \<and> \<not> lp_claimed q \<and> \<not> lp_expired q)"
    using keys by fastforce
  have other_auction: "\<forall>k q. auctionPrizeTbl claimScenario k = Some q \<longrightarrow>
          \<not> (ap_winner q = 7 \<and> ap_stratAmount q = 100 \<and> \<not> ap_claimed q \<and> \<not> ap_expired q)"
    by (simp add: claimScenario_def emptyStore_def)
  from prize_claim_then_noop[OF won other_lottery other_auction, of "metaAt 3" "metaAt 4"]
  show ?thesis by (auto simp: metaAt_def)
qed

subsection \<open>C6: a mint and its fee transfer give two records\<close>

text \<open>
  Claim C6. Let the keys \<open>c\<close> and \<open>c + 1\<close> be unused in store \<open>s\<close>, \<open>c\<close> being its sequence
  counter (as in every store reached by fewer than \<open>2 ^ 32 - 1\<close> events, lemmas
  \<open>reachable_counter_fresh\<close> and \<open>reachable_next_fresh\<close>). Then a Minted event followed by
  a Transfer event with a non-zero source to the fee pool both return; the first saves a
  MINT record under \<open>c\<close>, the second a different TRANSFER record under \<open>c + 1 \<noteq> c\<close>, and the
  counter ends at \<open>c + 2\<close>. The TRANSFER record does not replace the MINT record: under \<open>c\<close>
  there is still the MINT record unless the rotation of the transfer evicted it, which it
  does not when key 0 was unused in \<open>s\<close>. Every other key holds what it held in \<open>s\<close> or
  nothing.
\<close>

theorem mint_then_fee_transfer_two_records:
  assumes fresh: "transactionTbl s (counterOf s) = None" "transactionTbl s (counterOf s + 1) = None"
    and pool: "to_addr = FEES_POOL_ADDRESS" and src: "from_addr \<noteq> ADDRESS_ZERO"
  shows "\<exists>s1 s2 m t.
      handleMinted evMint minter monAmount stratAmount fee s = Some s1 \<and>
      handleTransfer evTransfer from_addr to_addr val s1 = Some s2 \<and>
      transactionTbl s1 (counterOf s) = Some m \<and>
      tx_id m = counterOf s \<and> tx_type m = MINT \<and> tx_user m = minter \<and>
      tx_stratAmount m = stratAmount \<and> tx_timestamp m = blockTimestamp evMint \<and>
      transactionTbl s2 (counterOf s + 1) = Some t \<and>
      tx_id t = counterOf s + 1 \<and> tx_type t = TRANSFER \<and> tx_user t = from_addr \<and>
      tx_stratAmount t = val \<and> tx_timestamp t = blockTimestamp evTransfer \<and>
      counterOf s \<noteq> counterOf s + 1 \<and> m \<noteq> t \<and>
      counterOf s2 = counterOf s + 2 \<and>
      (transactionTbl s2 (counterOf s) = Some m \<or> transactionTbl s2 (counterOf s) = None) \<and>
      (transactionTbl s 0 = None \<longrightarrow> transactionTbl s2 (counterOf s) = Some m) \<and>
      (\<forall>k. k \<noteq> counterOf s \<and> k \<noteq> counterOf s + 1 \<longrightarrow>
         transactionTbl s2 k = None \<or> transactionTbl s2 k = transactionTbl s k)"
proof -
  let ?c = "counterOf s"
  let ?m = "mintedTx evMint minter monAmount stratAmount fee s"
  have cc: "?c \<noteq> ?c + 1" by simp
  from fresh(1) obtain r1 where rot1: "rotateTransactions s = Some r1"
    using rotateTransactions_total by blast
  from handleMinted_Some[OF rot1, of evMint minter monAmount stratAmount fee] obtain s1 where
    s1: "handleMinted evMint minter monAmount stratAmount fee s = Some s1"
      "transactionTbl s1 = (transactionTbl r1)(?c \<mapsto> ?m)"
      "counterOf s1 = ?c + 1" by blast
  have r1_sub: "\<And>k. transactionTbl r1 k = None \<or> transactionTbl r1 k = transactionTbl s k"
    by (rule rotateTransactions_tbl[OF rot1])
  from r1_sub[of "?c + 1"] fresh(2) have "transactionTbl r1 (?c + 1) = None" by auto
  with s1(2) cc have fresh1: "transactionTbl s1 (counterOf s1) = None" by (simp add: s1(3))
  then obtain r2 where rot2: "rotateTransactions s1 = Some r2"
    using rotateTransactions_total by blast
  let ?t = "transferTx evTransfer from_addr val s1"
  from handleTransfer_Some[OF rot2 pool src, of evTransfer val] obtain s2 where
    s2: "handleTransfer evTransfer from_addr to_addr val s1 = Some s2"
      "transactionTbl s2 = (transactionTbl r2)(counterOf s1 \<mapsto> ?t)"
      "counterOf s2 = counterOf s1 + 1" by blast
  have r2_sub: "\<And>k. transactionTbl r2 k = None \<or> transactionTbl r2 k = transactionTbl s1 k"
    by (rule rotateTransactions_tbl[OF rot2])
  have at_c: "transactionTbl s2 ?c = Some ?m \<or> transactionTbl s2 ?c = None"
    using r2_sub[of ?c] s1(2,3) s2(2) cc by auto
  have keep: "transactionTbl s2 ?c = Some ?m" if z: "transactionTbl s 0 = None"
  proof -
    have "rotateTransactions s1 = Some s1"
    proof (cases "?c = 0")
      case True
      with s1(2) have "transactionTbl s1 0 = Some ?m" by simp
      moreover from fresh1 s1(3) True have "transactionTbl s1 1 = None" by simp
      ultimately show ?thesis by (rule rotateTransactions_one)
    next
      case False
      from r1_sub[of 0] z have "transactionTbl r1 0 = None" by auto
      with s1(2) False have "transactionTbl s1 0 = None" by simp
      then show ?thesis by (rule rotateTransactions_noop)
    qed
    with rot2 have "r2 = s1" by simp
    with s2(2) s1(2,3) cc show ?thesis by simp
  qed
  have others: "\<forall>k. k \<noteq> ?c \<and> k \<noteq> ?c + 1 \<longrightarrow>
         transactionTbl s2 k = None \<or> transactionTbl s2 k = transactionTbl s k"
  proof (intro allI impI)
    fix k assume k: "k \<noteq> ?c \<and> k \<noteq> ?c + 1"
    with s2(2) s1(3) have "transactionTbl s2 k = transactionTbl r2 k" by simp
    moreover from k s1(2) have "transactionTbl s1 k = transactionTbl r1 k" by simp
    ultimately show "transactionTbl s2 k = None \<or> transactionTbl s2 k = transactionTbl s k"
      using r2_sub[of k] r1_sub[of k] by auto
  qed
  have mt: "?m \<noteq> ?t" by (simp add: mintedTx_def transferTx_def)
  have two: "counterOf s2 = ?c + 2" using s2(3) s1(3) by simp
  have t_at: "transactionTbl s2 (?c + 1) = Some ?t" using s2(2) s1(3) by simp
  have m_at: "transactionTbl s1 ?c = Some ?m" using s1(2) by simp
  show ?thesis
    apply (rule exI[of _ s1], rule exI[of _ s2], rule exI[of _ ?m], rule exI[of _ ?t])
    using s1(1) s2(1) m_at t_at cc mt two at_c keep others
    by (simp add: mintedTx_def transferTx_def s1(3))
qed

text \<open>
  The theorem at the empty store: the two events leave exactly the keys 0 (MINT) and 1
  (TRANSFER).
\<close>

theorem mint_then_fee_transfer_two_records_witness:
  "\<exists>s1 s2 m t.
      handleMinted (metaAt 1) 7 5 50 1 emptyStore = Some s1 \<and>
      handleTransfer (metaAt 1) 7 FEES_POOL_ADDRESS 1 s1 = Some s2 \<and>
      transactionTbl s2 0 = Some m \<and> tx_type m = MINT \<and>
      transactionTbl s2 1 = Some t \<and> tx_type t = TRANSFER \<and>
      dom (transactionTbl s2) = {0, 1}"
proof -
  have c: "counterOf emptyStore = 0" by (simp add: counterOf_def emptyStore_def)
  have e: "\<And>k. transactionTbl emptyStore k = None" by (simp add: emptyStore_def)
  have src: "(7 :: address) \<noteq> ADDRESS_ZERO" by (simp add: ADDRESS_ZERO_def)
  note T = mint_then_fee_transfer_two_records[where s = emptyStore and to_addr = FEES_POOL_ADDRESS
      and from_addr = 7 and evMint = "metaAt 1" and minter = 7 and monAmount = 5 and stratAmount = 50
      and fee = 1 and evTransfer = "metaAt 1" and val = 1, OF e e refl src, unfolded c add_0]
  from T obtain s1 s2 m t where r:
    "handleMinted (metaAt 1) 7 5 50 1 emptyStore = Some s1 \<and>
     handleTransfer (metaAt 1) 7 FEES_POOL_ADDRESS 1 s1 = Some s2 \<and>
     transactionTbl s1 0 = Some m \<and> tx_id m = 0 \<and> tx_type m = MINT \<and> tx_user m = 7 \<and>
     tx_stratAmount m = 50 \<and> tx_timestamp m = blockTimestamp (metaAt 1) \<and>
     transactionTbl s2 1 = Some t \<and> tx_id t = 1 \<and> tx_type t = TRANSFER \<and> tx_user t = 7 \<and>
     tx_stratAmount t = 1 \<and> tx_timestamp t = blockTimestamp (metaAt 1) \<and>
     (0 :: i32) \<noteq> 1 \<and> m \<noteq> t \<and> counterOf s2 = 2 \<and>
     (transactionTbl s2 0 = Some m \<or> transactionTbl s2 0 = None) \<and>
     (transactionTbl emptyStore 0 = None \<longrightarrow> transactionTbl s2 0 = Some m) \<and>
     (\<forall>k. k \<noteq> 0 \<and> k \<noteq> 1 \<longrightarrow>
        transactionTbl s2 k = None \<or> transactionTbl s2 k = transactionTbl emptyStore k)"
    by (elim exE) (erule that)
  from r e have m0: "transactionTbl s2 0 = Some m" by simp
  from r e have rest: "\<And>k. k \<noteq> 0 \<Longrightarrow> k \<noteq> 1 \<Longrightarrow> transactionTbl s2 k = None" by simp
  from r have t1: "transactionTbl s2 1 = Some t" by simp
  have "dom (transactionTbl s2) = {0, 1}"
  proof (rule set_eqI)
    fix k show "k \<in> dom (transactionTbl s2) \<longleftrightarrow> k \<in> {0, 1}"
      using m0 t1 rest[of k] by (cases "k = 0"; cases "k = 1") auto
  qed
  with r m0 show ?thesis by blast
qed

subsection \<open>C7: which transfers are recorded\<close>

text \<open>
  Claim C7. When the destination of a Transfer event is not the fee-pool address, or its
  source is the zero address, the handler returns the store it was given: no Transaction
  record is created and no entity changes. When the destination is the fee pool and the
  source is not zero (the key of the sequence counter being unused, as in every store
  reached by fewer than \<open>2 ^ 32\<close> events, lemma \<open>reachable_counter_fresh\<close>), the handler
  returns a different store with a TRANSFER record of the event under that key, the
  counter advanced by one, and every other key holding what it held or nothing.
\<close>

theorem transfer_recorded_iff_fee_pool:
  "(to_addr \<noteq> FEES_POOL_ADDRESS \<or> from_addr = ADDRESS_ZERO \<longrightarrow>
      handleTransfer ev from_addr to_addr val s = Some s) \<and>
   (to_addr = FEES_POOL_ADDRESS \<and> from_addr \<noteq> ADDRESS_ZERO \<and>
    transactionTbl s (counterOf s) = None \<longrightarrow>
      (\<exists>s' t. handleTransfer ev from_addr to_addr val s = Some s' \<and> s' \<noteq> s \<and>
         transactionTbl s' (counterOf s) = Some t \<and>
         tx_id t = counterOf s \<and> tx_type t = TRANSFER \<and> tx_user t = from_addr \<and>
         tx_monAmount t = 0 \<and> tx_stratAmount t = val \<and> tx_fee t = 0 \<and>
         tx_timestamp t = blockTimestamp ev \<and> tx_blockNumber t = blockNumber ev \<and>
         tx_txHash t = transactionHash ev \<and>
         counterOf s' = counterOf s + 1 \<and>
         (\<forall>k. k \<noteq> counterOf s \<longrightarrow>
            transactionTbl s' k = None \<or> transactionTbl s' k = transactionTbl s k)))"
proof (intro conjI impI)
  assume "to_addr \<noteq> FEES_POOL_ADDRESS \<or> from_addr = ADDRESS_ZERO"
  then show "handleTransfer ev from_addr to_addr val s = Some s" by (rule handleTransfer_ignored)
next
  assume a: "to_addr = FEES_POOL_ADDRESS \<and> from_addr \<noteq> ADDRESS_ZERO \<and>
    transactionTbl s (counterOf s) = None"
  then obtain s1 where rot: "rotateTransactions s = Some s1"
    using rotateTransactions_total by blast
  from handleTransfer_Some[OF rot, of to_addr from_addr ev val] a obtain s' where
    s': "handleTransfer ev from_addr to_addr val s = Some s'"
      "transactionTbl s' = (transactionTbl s1)(counterOf s \<mapsto> transferTx ev from_addr val s)"
      "counterOf s' = counterOf s + 1" by blast
  from s'(2) a have ne: "s' \<noteq> s" by (metis fun_upd_same option.distinct(1))
  have other: "\<forall>k. k \<noteq> counterOf s \<longrightarrow>
            transactionTbl s' k = None \<or> transactionTbl s' k = transactionTbl s k"
    using rotateTransactions_tbl[OF rot] s'(2) by simp
  show "\<exists>s' t. handleTransfer ev from_addr to_addr val s = Some s' \<and> s' \<noteq> s \<and>
         transactionTbl s' (counterOf s) = Some t \<and>
         tx_id t = counterOf s \<and> tx_type t = TRANSFER \<and> tx_user t = from_addr \<and>
         tx_monAmount t = 0 \<and> tx_stratAmount t = val \<and> tx_fee t = 0 \<and>
         tx_timestamp t = blockTimestamp ev \<and> tx_blockNumber t = blockNumber ev \<and>
         tx_txHash t = transactionHash ev \<and>
         counterOf s' = counterOf s + 1 \<and>
         (\<forall>k. k \<noteq> counterOf s \<longrightarrow>
            transactionTbl s' k = None \<or> transactionTbl s' k = transactionTbl s k)"
    using s' ne other
    by (intro exI[of _ s'] exI[of _ "transferTx ev from_addr val s"]) (simp add: transferTx_def)
qed

text \<open>
  The theorem at the empty store, for a transfer to another address, a transfer from the
  zero address to the fee pool, and a transfer from address 5 to the fee pool.
\<close>

theorem transfer_recorded_iff_fee_pool_witness:
  "handleTransfer (metaAt 1) 5 6 10 emptyStore = Some emptyStore \<and>
   handleTransfer (metaAt 1) 0 FEES_POOL_ADDRESS 10 emptyStore = Some emptyStore \<and>
   (\<exists>s' t. handleTransfer (metaAt 1) 5 FEES_POOL_ADDRESS 10 emptyStore = Some s' \<and>
        s' \<noteq> emptyStore \<and> transactionTbl s' 0 = Some t \<and> tx_type t = TRANSFER \<and> tx_user t = 5)"
proof -
  have c: "counterOf emptyStore = 0" by (simp add: counterOf_def emptyStore_def)
  have e: "transactionTbl emptyStore (counterOf emptyStore) = None" by (simp add: emptyStore_def)
  have n1: "(6 :: address) \<noteq> FEES_POOL_ADDRESS \<or> (5 :: address) = ADDRESS_ZERO"
    by (simp add: FEES_POOL_ADDRESS_def)
  have n2: "FEES_POOL_ADDRESS \<noteq> FEES_POOL_ADDRESS \<or> (0 :: address) = ADDRESS_ZERO"
    by (simp add: ADDRESS_ZERO_def)
  have p: "FEES_POOL_ADDRESS = FEES_POOL_ADDRESS \<and> (5 :: address) \<noteq> ADDRESS_ZERO \<and>
      transactionTbl emptyStore (counterOf emptyStore) = None"
    using e by (simp add: ADDRESS_ZERO_def)
  from transfer_recorded_iff_fee_pool[where to_addr = 6 and from_addr = 5 and ev = "metaAt 1" and val = 10 and s = emptyStore] n1
  have a: "handleTransfer (metaAt 1) 5 6 10 emptyStore = Some emptyStore" by blast
  from transfer_recorded_iff_fee_pool[where to_addr = FEES_POOL_ADDRESS and from_addr = 0 and ev = "metaAt 1" and val = 10 and s = emptyStore] n2
  have b: "handleTransfer (metaAt 1) 0 FEES_POOL_ADDRESS 10 emptyStore = Some emptyStore" by blast
  from transfer_recorded_iff_fee_pool[where to_addr = FEES_POOL_ADDRESS and from_addr = 5 and ev = "metaAt 1" and val = 10 and s = emptyStore] p
  obtain s' t where "handleTransfer (metaAt 1) 5 FEES_POOL_ADDRESS 10 emptyStore = Some s'"
    "s' \<noteq> emptyStore" "transactionTbl s' (counterOf emptyStore) = Some t" "tx_type t = TRANSFER" "tx_user t = 5"
    by blast
  with a b c show ?thesis by auto
qed

subsection \<open>C8: claimed and expired exclude each other\<close>

text \<open>
  Claim C8. In every store reached from the empty store by a log of events, no lottery
  record and no auction record has both its claimed flag and its expired flag set.
\<close>

theorem claimed_and_expired_unreachable:
  assumes "processEvents evs emptyStore = Some s"
  shows "(\<forall>k p. lotteryPrizeTbl s k = Some p \<longrightarrow> \<not> (lp_claimed p \<and> lp_expired p)) \<and>
         (\<forall>k q. auctionPrizeTbl s k = Some q \<longrightarrow> \<not> (ap_claimed q \<and> ap_expired q))"
proof -
  from processEvents_inv[OF assms emptyStore_inv]
  have "lotteryInv (lotteryPrizeTbl s)" "auctionInv (auctionPrizeTbl s)" by blast+
  then show ?thesis using lotteryInv_D auctionInv_D by blast
qed

text \<open>
  The theorem at the log of a lottery win of day 5, a claim of that prize and an expiry for
  the same winner: the record is claimed, hence not expired.
\<close>

theorem claimed_and_expired_unreachable_witness:
  "(\<exists>s p. processEvents [lotteryAt 5, PrizeClaimed (metaAt 6) 1 1,
                           BeneficiaryFunded (metaAt 7) 1 2 1] emptyStore = Some s \<and>
          lotteryPrizeTbl s 5 = Some p \<and> lp_claimed p \<and> \<not> lp_expired p)"
proof -
  let ?evs = "[lotteryAt 5, PrizeClaimed (metaAt 6) 1 1, BeneficiaryFunded (metaAt 7) 1 2 1]"
  obtain s where run: "processEvents ?evs emptyStore = Some s" by (simp add: lotteryAt_def)
  then have "map_option lp_claimed (lotteryPrizeTbl s 5) = Some True"
    by (auto simp: scan_defs eval_defs)
  then obtain p where p: "lotteryPrizeTbl s 5 = Some p" "lp_claimed p" by auto
  from claimed_and_expired_unreachable[OF run] p have "\<not> lp_expired p" by blast
  with run p show ?thesis by blast
qed

subsection \<open>C9: the placeholder of a started auction\<close>

text \<open>
  Claim C9, for any day \<open>D\<close> (the claim names day 3). When no auction record exists for
  \<open>D\<close>, AuctionStarted creates one with the zero address as winner, the event's token
  amount, paid amount 0 and bid count 0, unclaimed and unexpired; a BidPlaced event for
  \<open>D\<close> that follows sets the bid count of that record to 1. When a record exists for \<open>D\<close>,
  AuctionStarted leaves the store unchanged.
\<close>

theorem auction_started_placeholder:
  "(auctionPrizeTbl s D = None \<longrightarrow>
      (\<exists>p. auctionPrizeTbl (handleAuctionStarted ev D T s) D = Some p \<and>
           ap_day p = D \<and> ap_winner p = ADDRESS_ZERO \<and> ap_stratAmount p = T \<and>
           ap_monPaid p = 0 \<and> ap_bidCount p = 0 \<and> \<not> ap_claimed p \<and> \<not> ap_expired p \<and>
           auctionPrizeTbl (handleBidPlaced ev' D bidder amount (handleAuctionStarted ev D T s)) D =
             Some (p\<lparr>ap_bidCount := 1\<rparr>))) \<and>
   (auctionPrizeTbl s D \<noteq> None \<longrightarrow> handleAuctionStarted ev D T s = s)"
  by (auto simp: handleAuctionStarted_def handleBidPlaced_def ADDRESS_ZERO_def Let_def)

text \<open>
  The theorem at day 3 from the empty store, and a second AuctionStarted for day 3 after
  the first.
\<close>

theorem auction_started_placeholder_witness:
  "auctionPrizeTbl emptyStore 3 = None \<and>
   map_option ap_bidCount (auctionPrizeTbl (handleAuctionStarted (metaAt 1) 3 100 emptyStore) 3) = Some 0 \<and>
   map_option ap_winner (auctionPrizeTbl (handleAuctionStarted (metaAt 1) 3 100 emptyStore) 3) = Some ADDRESS_ZERO \<and>
   map_option ap_bidCount (auctionPrizeTbl (handleBidPlaced (metaAt 2) 3 7 10
       (handleAuctionStarted (metaAt 1) 3 100 emptyStore)) 3) = Some 1 \<and>
   auctionPrizeTbl (handleAuctionStarted (metaAt 1) 3 100 emptyStore) 3 \<noteq> None \<and>
   handleAuctionStarted (metaAt 5) 3 200 (handleAuctionStarted (metaAt 1) 3 100 emptyStore) =
     handleAuctionStarted (metaAt 1) 3 100 emptyStore"
proof -
  have e: "auctionPrizeTbl emptyStore 3 = None" by (simp add: emptyStore_def)
  from auction_started_placeholder[of emptyStore 3 "metaAt 1" 100 "metaAt 2" 7 10] e
  obtain p where p: "auctionPrizeTbl (handleAuctionStarted (metaAt 1) 3 100 emptyStore) 3 = Some p"
    "ap_winner p = ADDRESS_ZERO" "ap_bidCount p = 0"
    "auctionPrizeTbl (handleBidPlaced (metaAt 2) 3 7 10 (handleAuctionStarted (metaAt 1) 3 100 emptyStore)) 3
       = Some (p\<lparr>ap_bidCount := 1\<rparr>)"
    by blast
  from p(1) have ne: "auctionPrizeTbl (handleAuctionStarted (metaAt 1) 3 100 emptyStore) 3 \<noteq> None"
    by simp
  with auction_started_placeholder[of "handleAuctionStarted (metaAt 1) 3 100 emptyStore" 3 "metaAt 5" 200]
  have "handleAuctionStarted (metaAt 5) 3 200 (handleAuctionStarted (metaAt 1) 3 100 emptyStore) =
     handleAuctionStarted (metaAt 1) 3 100 emptyStore" by blast
  with e p ne show ?thesis by simp
qed

subsection \<open>C10: prizes of day 30 and later are never marked\<close>




end
